theory Spec2Isabelle
  imports Main
begin

section \<open>Batch count and allocation ledger of PoultryPal\<close>

text \<open>
  A shallow embedding of \<^verbatim>\<open>API/src/batch/batch.controller.js\<close>, of the schemas in
  \<^verbatim>\<open>batch.model.js\<close>, \<^verbatim>\<open>house.model.js\<close> and \<^verbatim>\<open>birdCountHistory.model.js\<close>.
  The document store is a record of four collections; every handler takes the store and
  returns its HTTP response together with the store it leaves behind. A handler
  definition runs a request alone; requests that share the store are interleaved at the
  \<^verbatim>\<open>await\<close>s of \<open>updateBirdCounts\<close> in a section of its own.
\<close>

subsection \<open>Documents\<close>

text \<open>
  \<^verbatim>\<open>batchSchema\<close>: the fields the ledger reads. The descriptive fields
  (arrival date, age, chicken type, supplier) take no part in any handler below.
  JavaScript numbers are modelled as unbounded integers.
\<close>

record batch =
  batch_id :: string
  batch_farmId :: string
  batch_name :: string
  originalCount :: int
  dead :: int
  culled :: int
  offlaid :: int
  isArchived :: bool

text \<open>\<^verbatim>\<open>houseSchema\<close>: \<open>capacity\<close> is an optional number.\<close>

record house =
  house_id :: string
  house_farmId :: string
  capacity :: "int option"

text \<open>\<^verbatim>\<open>batchAllocationSchema\<close>.\<close>

record allocation =
  alloc_id :: string
  batchId :: string
  houseId :: string
  quantity :: int

text \<open>The \<open>beforeState\<close> / \<open>afterState\<close> sub-documents of \<^verbatim>\<open>birdCountHistorySchema\<close>.\<close>

record snapshot =
  snap_dead :: int
  snap_culled :: int
  snap_offlaid :: int
  snap_currentCount :: int

record history_entry =
  hist_id :: string
  hist_batchId :: string
  hist_farmId :: string
  hist_userId :: string
  hist_userName :: string
  hist_dead :: int
  hist_culled :: int
  hist_offlaid :: int
  hist_reason :: string
  hist_notes :: string
  beforeState :: snapshot
  afterState :: snapshot

text \<open>\<^verbatim>\<open>req.user\<close>, as the authentication middleware attaches it.\<close>

record user =
  user_id :: string
  farmId :: "string option"
  firstName :: string
  lastName :: string

text \<open>
  The store. Each collection is the list of its documents in insertion order; the
  position of a document stands for its \<^verbatim>\<open>_id\<close>, which is what \<^verbatim>\<open>save()\<close> on a loaded
  document writes to.
\<close>

record db =
  batches :: "batch list"
  houses :: "house list"
  allocations :: "allocation list"
  history :: "history_entry list"

subsection \<open>Responses\<close>

text \<open>
  One constructor for each kind of non-2xx response a handler sends:
  \<^item> \<open>NoFarm\<close>: 400, "User does not belong to a farm";
  \<^item> \<open>InvalidInput\<close>: 400, no count supplied, or a negative count;
  \<^item> \<open>NotFound\<close>: 404;
  \<^item> \<open>Forbidden\<close>: 403, "Unauthorized to update this allocation";
  \<^item> \<open>ConstraintViolation\<close>: 400, "Total of dead, culled, and offlaid birds cannot exceed
    original count";
  \<^item> \<open>InsufficientUnallocated\<close>: 400, "Not enough unallocated birds available in batch";
  \<^item> \<open>InsufficientBirds\<close>: 400, "Insufficient birds to transfer";
  \<^item> \<open>CapacityExceeded\<close>: 400, one of the three house capacity messages;
  \<^item> \<open>ServerError\<close>: 500, sent by the \<^verbatim>\<open>catch\<close> block of a handler.
\<close>

datatype error =
    NoFarm
  | InvalidInput
  | NotFound
  | Forbidden
  | ConstraintViolation
  | InsufficientUnallocated
  | InsufficientBirds
  | CapacityExceeded
  | ServerError

fun status :: "error \<Rightarrow> nat" where
  "status NotFound = 404"
| "status Forbidden = 403"
| "status ServerError = 500"
| "status _ = 400"

subsection \<open>Queries\<close>

text \<open>
  \<^verbatim>\<open>Model.findOne(filter)\<close>: the first document that matches, with its position, or
  nothing.
\<close>

fun findOne :: "('a \<Rightarrow> bool) \<Rightarrow> 'a list \<Rightarrow> (nat \<times> 'a) option" where
  "findOne P [] = None"
| "findOne P (x # xs) =
     (if P x then Some (0, x)
      else (case findOne P xs of None \<Rightarrow> None | Some (i, y) \<Rightarrow> Some (Suc i, y)))"

text \<open>\<^verbatim>\<open>!user.farmId\<close>: a missing or empty farm id is falsy.\<close>

definition user_farm :: "user \<Rightarrow> string option" where
  "user_farm u =
     (case farmId u of None \<Rightarrow> None | Some f \<Rightarrow> if f = [] then None else Some f)"

text \<open>\<^verbatim>\<open>Batch.findOne({ id: batchId, farmId: user.farmId })\<close>.\<close>

definition findBatch :: "string \<Rightarrow> string \<Rightarrow> db \<Rightarrow> (nat \<times> batch) option" where
  "findBatch bid f s = findOne (\<lambda>b. batch_id b = bid \<and> batch_farmId b = f) (batches s)"

text \<open>\<^verbatim>\<open>House.findOne({ id: houseId, farmId: user.farmId })\<close>.\<close>

definition findHouse :: "string \<Rightarrow> string \<Rightarrow> db \<Rightarrow> (nat \<times> house) option" where
  "findHouse hid f s = findOne (\<lambda>h. house_id h = hid \<and> house_farmId h = f) (houses s)"

text \<open>\<^verbatim>\<open>BatchAllocation.findOne({ batchId, houseId })\<close>.\<close>

definition findAllocation :: "string \<Rightarrow> string \<Rightarrow> db \<Rightarrow> (nat \<times> allocation) option" where
  "findAllocation bid hid s =
     findOne (\<lambda>a. batchId a = bid \<and> houseId a = hid) (allocations s)"

text \<open>The virtual \<^verbatim>\<open>currentCount\<close> of \<^verbatim>\<open>batchSchema\<close>.\<close>

definition currentCount :: "batch \<Rightarrow> int" where
  "currentCount b = originalCount b - (dead b + culled b + offlaid b)"

text \<open>\<^verbatim>\<open>allocations.reduce((sum, allocation) => sum + allocation.quantity, 0)\<close>.\<close>

definition sumQuantity :: "allocation list \<Rightarrow> int" where
  "sumQuantity as = foldl (\<lambda>sum a. sum + quantity a) 0 as"

text \<open>\<^verbatim>\<open>batchSchema.methods.getAllocatedCount\<close> and \<^verbatim>\<open>getUnallocatedCount\<close>.\<close>

definition getAllocatedCount :: "db \<Rightarrow> batch \<Rightarrow> int" where
  "getAllocatedCount s b =
     sumQuantity (filter (\<lambda>a. batchId a = batch_id b) (allocations s))"

definition getUnallocatedCount :: "db \<Rightarrow> batch \<Rightarrow> int" where
  "getUnallocatedCount s b = currentCount b - getAllocatedCount s b"

subsection \<open>getBatchAvailability\<close>

record availability =
  av_batchId :: string
  av_batchName :: string
  av_originalCount :: int
  av_dead :: int
  av_culled :: int
  av_offlaid :: int
  av_currentCount :: int
  av_allocatedCount :: int
  av_unallocatedCount :: int

definition getBatchAvailability :: "user \<Rightarrow> string \<Rightarrow> db \<Rightarrow> (error + availability) \<times> db" where
  "getBatchAvailability u bid s =
     (case user_farm u of
        None \<Rightarrow> (Inl NoFarm, s)
      | Some f \<Rightarrow>
          (case findBatch bid f s of
             None \<Rightarrow> (Inl NotFound, s)
           | Some (i, b) \<Rightarrow>
               (let allocatedCount = getAllocatedCount s b;
                    unallocatedCount = getUnallocatedCount s b
                in (Inr \<lparr> av_batchId = batch_id b,
                          av_batchName = batch_name b,
                          av_originalCount = originalCount b,
                          av_dead = dead b,
                          av_culled = culled b,
                          av_offlaid = offlaid b,
                          av_currentCount = currentCount b,
                          av_allocatedCount = allocatedCount,
                          av_unallocatedCount = unallocatedCount \<rparr>, s))))"

subsection \<open>updateBirdCounts\<close>

text \<open>
  The request body of \<^verbatim>\<open>updateBirdCounts\<close>: each field may be absent (\<^verbatim>\<open>undefined\<close>).
  A supplied count is an integer here, so the \<^verbatim>\<open>Number.isInteger\<close> test of the handler
  is met by the type, and only its sign test remains.
\<close>

record lossRequest =
  req_dead :: "int option"
  req_culled :: "int option"
  req_offlaid :: "int option"
  req_reason :: "string option"
  req_notes :: "string option"

text \<open>\<^verbatim>\<open>x !== undefined && x < 0\<close>.\<close>

definition negativeCount :: "int option \<Rightarrow> bool" where
  "negativeCount x = (case x of None \<Rightarrow> False | Some n \<Rightarrow> n < 0)"

text \<open>\<^verbatim>\<open>x !== undefined ? current + x : current\<close>.\<close>

definition addCount :: "int \<Rightarrow> int option \<Rightarrow> int" where
  "addCount current x = (case x of None \<Rightarrow> current | Some n \<Rightarrow> current + n)"

text \<open>\<^verbatim>\<open>x || 0\<close> and \<^verbatim>\<open>x || ''\<close>.\<close>

definition orZero :: "int option \<Rightarrow> int" where
  "orZero x = (case x of None \<Rightarrow> 0 | Some n \<Rightarrow> n)"

definition orEmpty :: "string option \<Rightarrow> string" where
  "orEmpty x = (case x of None \<Rightarrow> [] | Some t \<Rightarrow> t)"

text \<open>
  \<^verbatim>\<open>Batch.findOneAndUpdate({ id, farmId }, { $inc: incrementUpdate }, { new: true })\<close>:
  the increments of the supplied counts are applied to the first matching document, and
  the document as updated is returned.
\<close>

definition incCounts :: "lossRequest \<Rightarrow> batch \<Rightarrow> batch" where
  "incCounts r b =
     b \<lparr> dead := addCount (dead b) (req_dead r),
         culled := addCount (culled b) (req_culled r),
         offlaid := addCount (offlaid b) (req_offlaid r) \<rparr>"

definition findOneAndUpdateInc ::
  "string \<Rightarrow> string \<Rightarrow> lossRequest \<Rightarrow> db \<Rightarrow> batch option \<times> db" where
  "findOneAndUpdateInc bid f r s =
     (case findBatch bid f s of
        None \<Rightarrow> (None, s)
      | Some (i, b) \<Rightarrow>
          (let b' = incCounts r b
           in (Some b', s \<lparr> batches := (batches s)[i := b'] \<rparr>)))"

definition snapshotOf :: "batch \<Rightarrow> snapshot" where
  "snapshotOf b =
     \<lparr> snap_dead = dead b, snap_culled = culled b, snap_offlaid = offlaid b,
       snap_currentCount = currentCount b \<rparr>"

record counts_response =
  cr_batch :: batch
  cr_dead :: int
  cr_culled :: int
  cr_offlaid :: int
  cr_historyId :: string

text \<open>
  The handler. \<open>uuid\<close> is the identifier that the schema default \<^verbatim>\<open>uuidv4\<close> draws for
  the new history document.
\<close>

definition updateBirdCounts ::
  "user \<Rightarrow> string \<Rightarrow> lossRequest \<Rightarrow> string \<Rightarrow> db \<Rightarrow> (error + counts_response) \<times> db" where
  "updateBirdCounts u bid r uuid s =
     (case user_farm u of
        None \<Rightarrow> (Inl NoFarm, s)
      | Some f \<Rightarrow>
          if req_dead r = None \<and> req_culled r = None \<and> req_offlaid r = None
          then (Inl InvalidInput, s)
          else if negativeCount (req_dead r) \<or> negativeCount (req_culled r)
                  \<or> negativeCount (req_offlaid r)
          then (Inl InvalidInput, s)
          else
            (case findBatch bid f s of
               None \<Rightarrow> (Inl NotFound, s)
             | Some (i, b) \<Rightarrow>
                 (let newDead = addCount (dead b) (req_dead r);
                      newCulled = addCount (culled b) (req_culled r);
                      newOfflaid = addCount (offlaid b) (req_offlaid r)
                  in if newDead + newCulled + newOfflaid > originalCount b
                     then (Inl ConstraintViolation, s)
                     else
                       (let beforeState = snapshotOf b
                        in (case findOneAndUpdateInc bid f r s of
                              (None, s') \<Rightarrow> (Inl NotFound, s')
                            | (Some updatedBatch, s') \<Rightarrow>
                                (let historyEntry =
                                       \<lparr> hist_id = uuid,
                                         hist_batchId = batch_id b,
                                         hist_farmId = f,
                                         hist_userId = user_id u,
                                         hist_userName = firstName u @ '' '' @ lastName u,
                                         hist_dead = orZero (req_dead r),
                                         hist_culled = orZero (req_culled r),
                                         hist_offlaid = orZero (req_offlaid r),
                                         hist_reason = orEmpty (req_reason r),
                                         hist_notes = orEmpty (req_notes r),
                                         beforeState = beforeState,
                                         afterState = snapshotOf updatedBatch \<rparr>
                                 in (Inr \<lparr> cr_batch = updatedBatch,
                                           cr_dead = orZero (req_dead r),
                                           cr_culled = orZero (req_culled r),
                                           cr_offlaid = orZero (req_offlaid r),
                                           cr_historyId = hist_id historyEntry \<rparr>,
                                     s' \<lparr> history := history s' @ [historyEntry] \<rparr>)))))))"

subsection \<open>createBatchAllocation\<close>

text \<open>
  \<^verbatim>\<open>house.capacity && n > house.capacity\<close>: an absent capacity and the capacity \<open>0\<close> are
  both falsy, so neither bounds anything.
\<close>

definition exceedsCapacity :: "int option \<Rightarrow> int \<Rightarrow> bool" where
  "exceedsCapacity cap n = (case cap of None \<Rightarrow> False | Some c \<Rightarrow> c \<noteq> 0 \<and> n > c)"

text \<open>\<^verbatim>\<open>BatchAllocation.find({ houseId })\<close> summed: the occupancy across all batches.\<close>

definition houseOccupancy :: "db \<Rightarrow> string \<Rightarrow> int" where
  "houseOccupancy s hid = sumQuantity (filter (\<lambda>a. houseId a = hid) (allocations s))"

text \<open>
  The handler; \<open>uuid\<close> is the identifier drawn for an allocation document that is created.
  The request's \<open>quantity\<close> is an integer; the handler itself places no bound on it.
\<close>

definition createBatchAllocation ::
  "user \<Rightarrow> string \<Rightarrow> string \<Rightarrow> int \<Rightarrow> string \<Rightarrow> db \<Rightarrow> (error + allocation) \<times> db" where
  "createBatchAllocation u bid hid qty uuid s =
     (case user_farm u of
        None \<Rightarrow> (Inl NoFarm, s)
      | Some f \<Rightarrow>
          (case findBatch bid f s of
             None \<Rightarrow> (Inl NotFound, s)
           | Some (bi, b) \<Rightarrow>
               (let allocatedCount = getAllocatedCount s b;
                    unallocatedCount = currentCount b - allocatedCount
                in if qty > unallocatedCount then (Inl InsufficientUnallocated, s)
                   else
                     (case findHouse hid f s of
                        None \<Rightarrow> (Inl NotFound, s)
                      | Some (hi, h) \<Rightarrow>
                          (let existingAllocation = findAllocation bid hid s;
                               existingQuantity =
                                 (case existingAllocation of
                                    None \<Rightarrow> 0 | Some (i, a) \<Rightarrow> quantity a);
                               totalQuantity = existingQuantity + qty
                           in if exceedsCapacity (capacity h) totalQuantity
                              then (Inl CapacityExceeded, s)
                              else
                                (let currentHouseOccupancy = houseOccupancy s hid;
                                     newTotalOccupancy = currentHouseOccupancy + qty
                                 in if exceedsCapacity (capacity h) newTotalOccupancy
                                    then (Inl CapacityExceeded, s)
                                    else
                                      (case existingAllocation of
                                         Some (i, a) \<Rightarrow>
                                           (let a' = a \<lparr> quantity := quantity a + qty \<rparr>
                                            in (Inr a',
                                                s \<lparr> allocations := (allocations s)[i := a'] \<rparr>))
                                       | None \<Rightarrow>
                                           (let a = \<lparr> alloc_id = uuid, batchId = bid,
                                                      houseId = hid, quantity = qty \<rparr>
                                            in (Inr a,
                                                s \<lparr> allocations := allocations s @ [a] \<rparr>)))))))))"

subsection \<open>updateBatchAllocation\<close>

definition updateBatchAllocation ::
  "user \<Rightarrow> string \<Rightarrow> int \<Rightarrow> db \<Rightarrow> (error + allocation) \<times> db" where
  "updateBatchAllocation u allocationId qty s =
     (case user_farm u of
        None \<Rightarrow> (Inl NoFarm, s)
      | Some f \<Rightarrow>
          (case findOne (\<lambda>a. alloc_id a = allocationId) (allocations s) of
             None \<Rightarrow> (Inl NotFound, s)
           | Some (i, a) \<Rightarrow>
               (case findBatch (batchId a) f s of
                  None \<Rightarrow> (Inl Forbidden, s)
                | Some (bi, b) \<Rightarrow>
                    (case findHouse (houseId a) f s of
                       None \<Rightarrow> (Inl NotFound, s)
                     | Some (hi, h) \<Rightarrow>
                         if exceedsCapacity (capacity h) qty
                         then (Inl CapacityExceeded, s)
                         else
                           (let a' = a \<lparr> quantity := qty \<rparr>
                            in (Inr a', s \<lparr> allocations := (allocations s)[i := a'] \<rparr>))))))"

subsection \<open>transferBirds\<close>

record transfer_response =
  tr_from :: allocation
  tr_to :: allocation

text \<open>
  The handler. Both allocation documents are loaded before either is written.
  The source's \<^verbatim>\<open>fromAllocation.save()\<close> writes the debited quantity at the position of
  the source document; \<^verbatim>\<open>toAllocation.save()\<close> then writes the quantity of the copy
  loaded earlier plus the transferred quantity at the position of the destination
  document. When no destination document was found, a new one is inserted, and the
  response expression \<^verbatim>\<open>toAllocation || newAllocation\<close> reads \<^verbatim>\<open>newAllocation\<close> outside
  the block that declares it: the ReferenceError reaches the \<^verbatim>\<open>catch\<close> block and the
  response is 500, after both writes.
\<close>

definition transferBirds ::
  "user \<Rightarrow> string \<Rightarrow> string \<Rightarrow> string \<Rightarrow> int \<Rightarrow> string \<Rightarrow> db
     \<Rightarrow> (error + transfer_response) \<times> db" where
  "transferBirds u bid fromHouseId toHouseId qty uuid s =
     (case user_farm u of
        None \<Rightarrow> (Inl NoFarm, s)
      | Some f \<Rightarrow>
          (case findBatch bid f s of
             None \<Rightarrow> (Inl NotFound, s)
           | Some (bi, b) \<Rightarrow>
               (case findAllocation bid fromHouseId s of
                  None \<Rightarrow> (Inl InsufficientBirds, s)
                | Some (i, fromAllocation) \<Rightarrow>
                    if quantity fromAllocation < qty then (Inl InsufficientBirds, s)
                    else
                      (case findHouse toHouseId f s of
                         None \<Rightarrow> (Inl NotFound, s)
                       | Some (hi, toHouse) \<Rightarrow>
                           (let toAllocation = findAllocation bid toHouseId s;
                                currentToQuantity =
                                  (case toAllocation of
                                     None \<Rightarrow> 0 | Some (j, a) \<Rightarrow> quantity a);
                                totalToQuantity = currentToQuantity + qty
                            in if exceedsCapacity (capacity toHouse) totalToQuantity
                               then (Inl CapacityExceeded, s)
                               else
                                 (let from' = fromAllocation
                                        \<lparr> quantity := quantity fromAllocation - qty \<rparr>;
                                      s1 = s \<lparr> allocations := (allocations s)[i := from'] \<rparr>
                                  in (case toAllocation of
                                        Some (j, a) \<Rightarrow>
                                          (let to' = a \<lparr> quantity := quantity a + qty \<rparr>
                                           in (Inr \<lparr> tr_from = from', tr_to = to' \<rparr>,
                                               s1 \<lparr> allocations := (allocations s1)[j := to'] \<rparr>))
                                      | None \<Rightarrow>
                                          (let newAllocation =
                                                 \<lparr> alloc_id = uuid, batchId = bid,
                                                   houseId = toHouseId, quantity = qty \<rparr>
                                           in (Inl ServerError,
                                               s1 \<lparr> allocations :=
                                                      allocations s1 @ [newAllocation] \<rparr>)))))))))"

subsection \<open>Listings\<close>

text \<open>
  The three listings sort by \<^verbatim>\<open>createdAt\<close>, newest first; a collection is kept in
  insertion order, so that is the reverse of the matching documents.
\<close>

definition getBatchAllocations :: "user \<Rightarrow> string \<Rightarrow> db \<Rightarrow> (error + allocation list) \<times> db" where
  "getBatchAllocations u bid s =
     (case user_farm u of
        None \<Rightarrow> (Inl NoFarm, s)
      | Some f \<Rightarrow>
          (case findBatch bid f s of
             None \<Rightarrow> (Inl NotFound, s)
           | Some (i, b) \<Rightarrow>
               (Inr (rev (filter (\<lambda>a. batchId a = bid) (allocations s))), s)))"

definition getHouseBatchAllocations ::
  "user \<Rightarrow> string \<Rightarrow> db \<Rightarrow> (error + allocation list) \<times> db" where
  "getHouseBatchAllocations u hid s =
     (case user_farm u of
        None \<Rightarrow> (Inl NoFarm, s)
      | Some f \<Rightarrow>
          (case findHouse hid f s of
             None \<Rightarrow> (Inl NotFound, s)
           | Some (i, h) \<Rightarrow>
               (Inr (rev (filter (\<lambda>a. houseId a = hid) (allocations s))), s)))"

definition getBirdCountHistory ::
  "user \<Rightarrow> string \<Rightarrow> db \<Rightarrow> (error + history_entry list) \<times> db" where
  "getBirdCountHistory u bid s =
     (case user_farm u of
        None \<Rightarrow> (Inl NoFarm, s)
      | Some f \<Rightarrow>
          (case findBatch bid f s of
             None \<Rightarrow> (Inl NotFound, s)
           | Some (i, b) \<Rightarrow>
               (Inr (take 50 (rev (filter (\<lambda>e. hist_batchId e = bid) (history s)))), s)))"

section \<open>Vocabulary of the properties\<close>

text \<open>
  A loss request as the ledger accepts it: at least one count is supplied, and no
  supplied count is negative.
\<close>

definition validLossRequest :: "lossRequest \<Rightarrow> bool" where
  "validLossRequest r \<longleftrightarrow>
     (req_dead r \<noteq> None \<or> req_culled r \<noteq> None \<or> req_offlaid r \<noteq> None)
     \<and> 0 \<le> orZero (req_dead r) \<and> 0 \<le> orZero (req_culled r) \<and> 0 \<le> orZero (req_offlaid r)"

text \<open>
  A sequence of \<open>updateBirdCounts\<close> calls on one batch, each run on the store its
  predecessor left: the list of (store before, request, response, store after).
\<close>

fun lossTrace ::
  "user \<Rightarrow> string \<Rightarrow> (lossRequest \<times> string) list \<Rightarrow> db
     \<Rightarrow> (db \<times> lossRequest \<times> (error + counts_response) \<times> db) list" where
  "lossTrace u bid [] s = []"
| "lossTrace u bid ((r, uuid) # rest) s =
     (case updateBirdCounts u bid r uuid s of
        (res, s') \<Rightarrow> (s, r, res, s') # lossTrace u bid rest s')"

text \<open>The loss counters of a batch do not exceed its original count.\<close>

definition lossInvariant :: "batch \<Rightarrow> bool" where
  "lossInvariant b \<longleftrightarrow> dead b + culled b + offlaid b \<le> originalCount b"

text \<open>The batch a \<open>$inc\<close> of the supplied counts leaves behind.\<close>

definition applyDeltas :: "lossRequest \<Rightarrow> batch \<Rightarrow> batch" where
  "applyDeltas r b =
     b \<lparr> dead := dead b + orZero (req_dead r),
         culled := culled b + orZero (req_culled r),
         offlaid := offlaid b + orZero (req_offlaid r) \<rparr>"

text \<open>
  The per-batch allocation invariant: for every batch of the store, the quantities of
  its allocation documents sum to at most its current count.
\<close>

definition allocatedWithinCount :: "db \<Rightarrow> bool" where
  "allocatedWithinCount s \<longleftrightarrow>
     (\<forall>b \<in> set (batches s).
        sum_list (map quantity (filter (\<lambda>a. batchId a = batch_id b) (allocations s)))
          \<le> currentCount b)"


section \<open>Example stores\<close>

text \<open>
  One farm with one batch of 1000 birds (18 lost so far), 300 of them placed in house A
  (capacity 600); house B (capacity 200) is empty.
\<close>

definition alice :: user where
  "alice = \<lparr> user_id = ''u1'', farmId = Some ''f1'', firstName = ''Alice'', lastName = ''A'' \<rparr>"

definition batch1 :: batch where
  "batch1 = \<lparr> batch_id = ''b1'', batch_farmId = ''f1'', batch_name = ''Layers'',
              originalCount = 1000, dead = 10, culled = 5, offlaid = 3,
              isArchived = False \<rparr>"

definition farm1 :: db where
  "farm1 =
     \<lparr> batches = [batch1],
       houses = [\<lparr> house_id = ''hA'', house_farmId = ''f1'', capacity = Some 600 \<rparr>,
                 \<lparr> house_id = ''hB'', house_farmId = ''f1'', capacity = Some 200 \<rparr>],
       allocations =
         [\<lparr> alloc_id = ''a1'', batchId = ''b1'', houseId = ''hA'', quantity = 300 \<rparr>],
       history = [] \<rparr>"

text \<open>A request that reports ten dead birds.\<close>

definition tenDead :: lossRequest where
  "tenDead = \<lparr> req_dead = Some 10, req_culled = None, req_offlaid = None,
               req_reason = Some ''heat'', req_notes = None \<rparr>"

text \<open>
  Two batches share house H (capacity 500, full: 450 birds of batch X and 50 of batch
  Y); another 100 birds of batch Y are in house G, which declares no capacity.
\<close>

definition farm2 :: db where
  "farm2 =
     \<lparr> batches =
         [\<lparr> batch_id = ''bX'', batch_farmId = ''f1'', batch_name = ''X'',
             originalCount = 1000, dead = 0, culled = 0, offlaid = 0, isArchived = False \<rparr>,
          \<lparr> batch_id = ''bY'', batch_farmId = ''f1'', batch_name = ''Y'',
             originalCount = 1000, dead = 0, culled = 0, offlaid = 0, isArchived = False \<rparr>],
       houses = [\<lparr> house_id = ''hH'', house_farmId = ''f1'', capacity = Some 500 \<rparr>,
                 \<lparr> house_id = ''hG'', house_farmId = ''f1'', capacity = None \<rparr>],
       allocations =
         [\<lparr> alloc_id = ''a1'', batchId = ''bX'', houseId = ''hH'', quantity = 450 \<rparr>,
          \<lparr> alloc_id = ''a2'', batchId = ''bY'', houseId = ''hH'', quantity = 50 \<rparr>,
          \<lparr> alloc_id = ''a3'', batchId = ''bY'', houseId = ''hG'', quantity = 100 \<rparr>],
       history = [] \<rparr>"

text \<open>A request that reports 900 dead birds.\<close>

definition manyDead :: lossRequest where
  "manyDead = \<lparr> req_dead = Some 900, req_culled = None, req_offlaid = None,
                req_reason = None, req_notes = None \<rparr>"

text \<open>A user of another farm.\<close>

definition mallory :: user where
  "mallory = \<lparr> user_id = ''u2'', farmId = Some ''f2'', firstName = ''Mallory'',
               lastName = ''M'' \<rparr>"

text \<open>A farm whose only batch is archived; nothing of it is allocated.\<close>

definition archivedBatch :: batch where
  "archivedBatch = \<lparr> batch_id = ''bZ'', batch_farmId = ''f1'', batch_name = ''Old'',
                     originalCount = 100, dead = 0, culled = 0, offlaid = 0,
                     isArchived = True \<rparr>"

definition farm3 :: db where
  "farm3 =
     \<lparr> batches = [archivedBatch],
       houses = [\<lparr> house_id = ''hA'', house_farmId = ''f1'', capacity = Some 600 \<rparr>],
       allocations = [],
       history = [] \<rparr>"

text \<open>
  The first farm again, with a house C that belongs to farm \<open>f2\<close> and holds ten birds of
  the batch of farm \<open>f1\<close>.
\<close>

definition farm4 :: db where
  "farm4 =
     \<lparr> batches = [batch1],
       houses = [\<lparr> house_id = ''hA'', house_farmId = ''f1'', capacity = Some 600 \<rparr>,
                 \<lparr> house_id = ''hC'', house_farmId = ''f2'', capacity = Some 50 \<rparr>],
       allocations =
         [\<lparr> alloc_id = ''a1'', batchId = ''b1'', houseId = ''hA'', quantity = 300 \<rparr>,
          \<lparr> alloc_id = ''a7'', batchId = ''b1'', houseId = ''hC'', quantity = 10 \<rparr>],
       history = [] \<rparr>"


section \<open>updateBirdCounts under interleaving\<close>

text \<open>
  \<open>updateBirdCounts\<close> suspends at three \<^verbatim>\<open>await\<close>s: \<^verbatim>\<open>Batch.findOne\<close>,
  \<^verbatim>\<open>Batch.findOneAndUpdate\<close> and \<^verbatim>\<open>historyEntry.save()\<close>. Between two of them the handler
  computes on its own variables only, so a request that shares the store with others
  advances in three segments, each of which is one storage operation together with the
  local code that leads to the next \<^verbatim>\<open>await\<close> or to the response. The phase of a request
  holds the local variables that the next segment reads.
\<close>

datatype phase =
    Start
  | Checked string batch
  | Updated string batch batch
  | Done "error + counts_response"

text \<open>
  First segment: the validation of the body, \<^verbatim>\<open>Batch.findOne\<close> and the test of the
  prospective total. It reads the store and does not write it. \<open>Checked f b\<close> keeps
  the farm id and the batch as loaded.
\<close>

definition lossCheck :: "user \<Rightarrow> string \<Rightarrow> lossRequest \<Rightarrow> db \<Rightarrow> phase" where
  "lossCheck u bid r s =
     (case user_farm u of
        None \<Rightarrow> Done (Inl NoFarm)
      | Some f \<Rightarrow>
          if req_dead r = None \<and> req_culled r = None \<and> req_offlaid r = None
          then Done (Inl InvalidInput)
          else if negativeCount (req_dead r) \<or> negativeCount (req_culled r)
                  \<or> negativeCount (req_offlaid r)
          then Done (Inl InvalidInput)
          else
            (case findBatch bid f s of
               None \<Rightarrow> Done (Inl NotFound)
             | Some (i, b) \<Rightarrow>
                 (let newDead = addCount (dead b) (req_dead r);
                      newCulled = addCount (culled b) (req_culled r);
                      newOfflaid = addCount (offlaid b) (req_offlaid r)
                  in if newDead + newCulled + newOfflaid > originalCount b
                     then Done (Inl ConstraintViolation)
                     else Checked f b)))"

text \<open>
  Second segment: \<^verbatim>\<open>Batch.findOneAndUpdate\<close> with \<^verbatim>\<open>$inc\<close>, one storage operation on the
  store as it is when the segment runs.
\<close>

definition lossIncrement :: "string \<Rightarrow> lossRequest \<Rightarrow> string \<Rightarrow> batch \<Rightarrow> db \<Rightarrow> phase \<times> db" where
  "lossIncrement bid r f b s =
     (case findOneAndUpdateInc bid f r s of
        (None, s') \<Rightarrow> (Done (Inl NotFound), s')
      | (Some updatedBatch, s') \<Rightarrow> (Updated f b updatedBatch, s'))"

text \<open>Third segment: \<^verbatim>\<open>historyEntry.save()\<close> and the 200 response.\<close>

definition lossAudit ::
  "user \<Rightarrow> lossRequest \<Rightarrow> string \<Rightarrow> string \<Rightarrow> batch \<Rightarrow> batch \<Rightarrow> db \<Rightarrow> phase \<times> db" where
  "lossAudit u r uuid f b updatedBatch s =
     (let historyEntry =
            \<lparr> hist_id = uuid,
              hist_batchId = batch_id b,
              hist_farmId = f,
              hist_userId = user_id u,
              hist_userName = firstName u @ '' '' @ lastName u,
              hist_dead = orZero (req_dead r),
              hist_culled = orZero (req_culled r),
              hist_offlaid = orZero (req_offlaid r),
              hist_reason = orEmpty (req_reason r),
              hist_notes = orEmpty (req_notes r),
              beforeState = snapshotOf b,
              afterState = snapshotOf updatedBatch \<rparr>
      in (Done (Inr \<lparr> cr_batch = updatedBatch,
                      cr_dead = orZero (req_dead r),
                      cr_culled = orZero (req_culled r),
                      cr_offlaid = orZero (req_offlaid r),
                      cr_historyId = hist_id historyEntry \<rparr>),
          s \<lparr> history := history s @ [historyEntry] \<rparr>))"

text \<open>A request in flight: the caller, the body, the id drawn for its history entry, its phase.\<close>

record request =
  rq_user :: user
  rq_body :: lossRequest
  rq_uuid :: string
  rq_phase :: phase

text \<open>The next segment of a request, run on the shared store; a finished request stays.\<close>

definition stepRequest :: "string \<Rightarrow> request \<Rightarrow> db \<Rightarrow> request \<times> db" where
  "stepRequest bid q s =
     (case rq_phase q of
        Start \<Rightarrow> (q \<lparr> rq_phase := lossCheck (rq_user q) bid (rq_body q) s \<rparr>, s)
      | Checked f b \<Rightarrow>
          (case lossIncrement bid (rq_body q) f b s of
             (p, s') \<Rightarrow> (q \<lparr> rq_phase := p \<rparr>, s'))
      | Updated f b updatedBatch \<Rightarrow>
          (case lossAudit (rq_user q) (rq_body q) (rq_uuid q) f b updatedBatch s of
             (p, s') \<Rightarrow> (q \<lparr> rq_phase := p \<rparr>, s'))
      | Done res \<Rightarrow> (q, s))"

text \<open>
  The requests in flight and the store. A schedule is the order in which the event loop
  and the storage engine let the requests advance: the list of the positions of the
  requests whose next segment runs. Every interleaving of the segments is a schedule.
\<close>

definition stepAt :: "string \<Rightarrow> nat \<Rightarrow> request list \<times> db \<Rightarrow> request list \<times> db" where
  "stepAt bid k c =
     (case c of
        (qs, s) \<Rightarrow>
          if k < length qs
          then (case stepRequest bid (qs ! k) s of (q', s') \<Rightarrow> (qs[k := q'], s'))
          else (qs, s))"

fun runSchedule :: "string \<Rightarrow> nat list \<Rightarrow> request list \<times> db \<Rightarrow> request list \<times> db" where
  "runSchedule bid [] c = c"
| "runSchedule bid (k # ks) c = runSchedule bid ks (stepAt bid k c)"

text \<open>The request has had its increment applied to the store.\<close>

fun incrementApplied :: "phase \<Rightarrow> bool" where
  "incrementApplied (Updated f b updatedBatch) = True"
| "incrementApplied (Done (Inr resp)) = True"
| "incrementApplied _ = False"

text \<open>The number of segments a request has behind it.\<close>

fun segmentsDone :: "phase \<Rightarrow> nat" where
  "segmentsDone Start = 0"
| "segmentsDone (Checked f b) = 1"
| "segmentsDone (Updated f b updatedBatch) = 2"
| "segmentsDone (Done res) = 3"

text \<open>A batch of 100 birds without losses, and two callers who each report one dead bird.\<close>

definition hundred :: batch where
  "hundred = \<lparr> batch_id = ''b5'', batch_farmId = ''f1'', batch_name = ''Hundred'',
               originalCount = 100, dead = 0, culled = 0, offlaid = 0, isArchived = False \<rparr>"

definition farm5 :: db where
  "farm5 = \<lparr> batches = [hundred], houses = [], allocations = [], history = [] \<rparr>"

definition oneDead :: lossRequest where
  "oneDead = \<lparr> req_dead = Some 1, req_culled = None, req_offlaid = None,
               req_reason = None, req_notes = None \<rparr>"

definition firstCall :: request where
  "firstCall = \<lparr> rq_user = alice, rq_body = oneDead, rq_uuid = ''e1'', rq_phase = Start \<rparr>"

definition secondCall :: request where
  "secondCall = \<lparr> rq_user = alice, rq_body = oneDead, rq_uuid = ''e2'', rq_phase = Start \<rparr>"

text \<open>A caller of farm \<open>f\<close> whose body is \<^verbatim>\<open>{dead: 1}\<close>.\<close>

definition oneDeadCaller :: "string \<Rightarrow> request \<Rightarrow> bool" where
  "oneDeadCaller f q \<longleftrightarrow>
     user_farm (rq_user q) = Some f \<and> req_dead (rq_body q) = Some 1
     \<and> req_culled (rq_body q) = None \<and> req_offlaid (rq_body q) = None"

text \<open>
  What every interleaving keeps: no request has been rejected, and the stored \<open>dead\<close>
  counter of the batch is the number of requests whose increment has been applied.
\<close>

definition raceInvariant :: "string \<Rightarrow> string \<Rightarrow> nat \<Rightarrow> int \<Rightarrow> request list \<times> db \<Rightarrow> bool" where
  "raceInvariant bid f i orig c \<longleftrightarrow>
     (case c of
        (qs, s) \<Rightarrow>
          int (length qs) \<le> orig
          \<and> (\<forall>q \<in> set qs. oneDeadCaller f q
                \<and> (\<forall>e. rq_phase q \<noteq> Done (Inl e))
                \<and> (\<forall>f' b. rq_phase q = Checked f' b \<longrightarrow> f' = f))
          \<and> (\<exists>b. findBatch bid f s = Some (i, b) \<and> originalCount b = orig
                \<and> culled b = 0 \<and> offlaid b = 0
                \<and> dead b = int (length (filter (\<lambda>q. incrementApplied (rq_phase q)) qs))))"

section \<open>Properties\<close>

subsection \<open>Queries and sums\<close>

lemma findOne_SomeD:
  "findOne P xs = Some (i, x) \<Longrightarrow> i < length xs \<and> xs ! i = x \<and> P x"
proof (induction xs arbitrary: i)
  case Nil
  then show ?case by simp
next
  case (Cons y ys)
  then show ?case
    by (auto split: if_splits option.splits)
qed

lemma findOne_None_iff: "findOne P xs = None \<longleftrightarrow> (\<forall>x\<in>set xs. \<not> P x)"
  by (induction xs) (auto split: option.splits)

lemma findOne_update_same:
  "findOne P xs = Some (i, x) \<Longrightarrow> P y \<Longrightarrow> findOne P (xs[i := y]) = Some (i, y)"
proof (induction xs arbitrary: i)
  case Nil
  then show ?case by simp
next
  case (Cons z zs)
  then show ?case
    by (auto split: if_splits option.splits)
qed

lemma foldl_add_quantity:
  "foldl (\<lambda>sum a. sum + quantity a) n as = n + sum_list (map quantity as)"
  by (induction as arbitrary: n) auto

lemma sumQuantity_sum_list: "sumQuantity as = sum_list (map quantity as)"
  by (simp add: sumQuantity_def foldl_add_quantity)

lemma findBatch_SomeD:
  "findBatch bid f s = Some (i, b) \<Longrightarrow>
     i < length (batches s) \<and> batches s ! i = b \<and> batch_id b = bid \<and> batch_farmId b = f"
  unfolding findBatch_def by (auto dest: findOne_SomeD)

lemma addCount_orZero: "addCount n x = n + orZero x"
  by (cases x) (simp_all add: addCount_def orZero_def)

lemma negativeCount_orZero: "negativeCount x \<longleftrightarrow> orZero x < 0"
  by (cases x) (simp_all add: negativeCount_def orZero_def)

lemma incCounts_applyDeltas: "incCounts r b = applyDeltas r b"
  by (simp add: incCounts_def applyDeltas_def addCount_orZero)

lemma user_farm_alice: "user_farm alice = Some ''f1''"
  by (simp add: user_farm_def alice_def)

lemma findBatch_farm1: "findBatch ''b1'' ''f1'' farm1 = Some (0, batch1)"
  by (simp add: findBatch_def farm1_def batch1_def)


subsection \<open>Availability\<close>


text \<open>
  C6. For the batch that \<open>getBatchAvailability\<close> loads, the response carries
  \<open>currentCount = originalCount - (dead + culled + offlaid)\<close>, \<open>allocatedCount\<close> equal to the
  sum of the quantities of the allocation documents of that batch, and
  \<open>unallocatedCount = currentCount - allocatedCount\<close>; the store is returned as it was.
\<close>

theorem getBatchAvailability_counts:
  assumes "user_farm u = Some f" and "findBatch bid f s = Some (i, b)"
  shows "getBatchAvailability u bid s =
     (Inr \<lparr> av_batchId = bid, av_batchName = batch_name b,
            av_originalCount = originalCount b,
            av_dead = dead b, av_culled = culled b, av_offlaid = offlaid b,
            av_currentCount = originalCount b - (dead b + culled b + offlaid b),
            av_allocatedCount =
              sum_list (map quantity (filter (\<lambda>a. batchId a = bid) (allocations s))),
            av_unallocatedCount =
              originalCount b - (dead b + culled b + offlaid b)
              - sum_list (map quantity (filter (\<lambda>a. batchId a = bid) (allocations s))) \<rparr>,
      s)"
proof -
  from assms(2) have "batch_id b = bid"
    by (simp add: findBatch_SomeD)
  with assms show ?thesis
    by (simp add: getBatchAvailability_def getAllocatedCount_def getUnallocatedCount_def
        currentCount_def sumQuantity_sum_list)
qed

theorem getBatchAvailability_counts_witness:
  "user_farm alice = Some ''f1'' \<and> findBatch ''b1'' ''f1'' farm1 = Some (0, batch1)
   \<and> getBatchAvailability alice ''b1'' farm1 =
     (Inr \<lparr> av_batchId = ''b1'', av_batchName = ''Layers'', av_originalCount = 1000,
            av_dead = 10, av_culled = 5, av_offlaid = 3, av_currentCount = 982,
            av_allocatedCount = 300, av_unallocatedCount = 682 \<rparr>, farm1)"
  using getBatchAvailability_counts [OF user_farm_alice findBatch_farm1]
  by (simp add: user_farm_alice findBatch_farm1) (simp add: farm1_def batch1_def)


subsection \<open>Loss counts\<close>

lemma findOneAndUpdateInc_found:
  "findBatch bid f s = Some (i, b) \<Longrightarrow>
     findOneAndUpdateInc bid f r s =
       (Some (applyDeltas r b), s \<lparr> batches := (batches s)[i := applyDeltas r b] \<rparr>)"
  by (simp add: findOneAndUpdateInc_def incCounts_applyDeltas Let_def)

lemma updateBirdCounts_found:
  assumes "user_farm u = Some f" and "findBatch bid f s = Some (i, b)"
    and "validLossRequest r"
  shows "updateBirdCounts u bid r uuid s =
     (if dead b + orZero (req_dead r) + (culled b + orZero (req_culled r))
           + (offlaid b + orZero (req_offlaid r)) > originalCount b
      then (Inl ConstraintViolation, s)
      else (Inr \<lparr> cr_batch = applyDeltas r b, cr_dead = orZero (req_dead r),
                  cr_culled = orZero (req_culled r), cr_offlaid = orZero (req_offlaid r),
                  cr_historyId = uuid \<rparr>,
            s \<lparr> batches := (batches s)[i := applyDeltas r b],
                history := history s @
                  [\<lparr> hist_id = uuid, hist_batchId = bid, hist_farmId = f,
                     hist_userId = user_id u,
                     hist_userName = firstName u @ '' '' @ lastName u,
                     hist_dead = orZero (req_dead r), hist_culled = orZero (req_culled r),
                     hist_offlaid = orZero (req_offlaid r),
                     hist_reason = orEmpty (req_reason r), hist_notes = orEmpty (req_notes r),
                     beforeState = snapshotOf b,
                     afterState = snapshotOf (applyDeltas r b) \<rparr>] \<rparr>))"
proof -
  from assms(3) have present:
    "\<not> (req_dead r = None \<and> req_culled r = None \<and> req_offlaid r = None)"
    and nonneg: "\<not> (negativeCount (req_dead r) \<or> negativeCount (req_culled r)
                    \<or> negativeCount (req_offlaid r))"
    by (auto simp: validLossRequest_def negativeCount_orZero)
  from assms(2) have "batch_id b = bid"
    by (simp add: findBatch_SomeD)
  then show ?thesis
    unfolding updateBirdCounts_def
    using assms(1,2) present nonneg
    by (simp add: findOneAndUpdateInc_found addCount_orZero Let_def)
qed

lemma findBatch_after_update:
  assumes "findBatch bid f s = Some (i, b)"
    and "batch_id b' = batch_id b" and "batch_farmId b' = batch_farmId b"
  shows "findBatch bid f (s \<lparr> batches := (batches s)[i := b'], history := hs \<rparr>) = Some (i, b')"
proof -
  from assms(1) have "batch_id b = bid \<and> batch_farmId b = f"
    by (simp add: findBatch_SomeD)
  with assms show ?thesis
    unfolding findBatch_def by (simp add: findOne_update_same)
qed

lemma updateBirdCounts_step:
  assumes "user_farm u = Some f" and "findBatch bid f s = Some (i, b)"
    and "validLossRequest r" and "lossInvariant b"
    and "updateBirdCounts u bid r uuid s = (res, s')"
  shows "(if dead b + orZero (req_dead r) + (culled b + orZero (req_culled r))
                + (offlaid b + orZero (req_offlaid r)) \<le> originalCount b
          then (\<exists>resp. res = Inr resp) \<and> findBatch bid f s' = Some (i, applyDeltas r b)
               \<and> lossInvariant (applyDeltas r b)
          else res = Inl ConstraintViolation \<and> s' = s)"
proof (cases "dead b + orZero (req_dead r) + (culled b + orZero (req_culled r))
                + (offlaid b + orZero (req_offlaid r)) \<le> originalCount b")
  case True
  with assms(5) updateBirdCounts_found [OF assms(1-3), of uuid]
  have res: "\<exists>resp. res = Inr resp"
    and s': "\<exists>hs. s' = s \<lparr> batches := (batches s)[i := applyDeltas r b], history := hs \<rparr>"
    by auto
  from s' have "findBatch bid f s' = Some (i, applyDeltas r b)"
    using findBatch_after_update [OF assms(2), of "applyDeltas r b"]
    by (auto simp: applyDeltas_def)
  moreover from True have "lossInvariant (applyDeltas r b)"
    by (simp add: lossInvariant_def applyDeltas_def)
  ultimately show ?thesis using True res by simp
next
  case False
  with assms(5) updateBirdCounts_found [OF assms(1-3), of uuid]
  show ?thesis by simp
qed

text \<open>
  C1. Take a batch of the caller's farm whose loss counters do not exceed its original
  count, and any sequence of \<open>updateBirdCounts\<close> calls with valid requests (at least one
  count, none negative). Every call of the sequence finds the batch and either answers
  200 and leaves each of the three counters raised by exactly the supplied count, when
  the prospective total does not exceed \<open>originalCount\<close>, or answers ConstraintViolation
  and leaves the whole store as it was; after every call
  \<open>dead + culled + offlaid \<le> originalCount\<close> holds for the batch.
\<close>

theorem updateBirdCounts_sequence_invariant:
  assumes "user_farm u = Some f"
    and "\<forall>(r, uuid) \<in> set reqs. validLossRequest r"
    and "findBatch bid f s0 = Some (i, b0)"
    and "dead b0 + culled b0 + offlaid b0 \<le> originalCount b0"
  shows "\<forall>(s, r, res, s') \<in> set (lossTrace u bid reqs s0).
           \<exists>b b'. findBatch bid f s = Some (i, b) \<and> findBatch bid f s' = Some (i, b')
             \<and> (if dead b + orZero (req_dead r) + (culled b + orZero (req_culled r))
                      + (offlaid b + orZero (req_offlaid r)) \<le> originalCount b
                 then (\<exists>resp. res = Inr resp)
                      \<and> dead b' = dead b + orZero (req_dead r)
                      \<and> culled b' = culled b + orZero (req_culled r)
                      \<and> offlaid b' = offlaid b + orZero (req_offlaid r)
                 else res = Inl ConstraintViolation \<and> s' = s)
             \<and> originalCount b' = originalCount b
             \<and> dead b' + culled b' + offlaid b' \<le> originalCount b'"
  using assms(2-4)
proof (induction reqs arbitrary: s0 b0)
  case Nil
  then show ?case by simp
next
  case (Cons q rest)
  obtain r uuid where q: "q = (r, uuid)" by (cases q)
  obtain res s' where step: "updateBirdCounts u bid r uuid s0 = (res, s')"
    by (cases "updateBirdCounts u bid r uuid s0")
  from Cons.prems q have valid: "validLossRequest r" by simp
  from Cons.prems have inv0: "lossInvariant b0" by (simp add: lossInvariant_def)
  note st = updateBirdCounts_step [OF assms(1) Cons.prems(2) valid inv0 step]
  define b' where "b' = (if dead b0 + orZero (req_dead r) + (culled b0 + orZero (req_culled r))
                + (offlaid b0 + orZero (req_offlaid r)) \<le> originalCount b0
                then applyDeltas r b0 else b0)"
  have found': "findBatch bid f s' = Some (i, b')"
    using st Cons.prems(2) by (simp add: b'_def split: if_splits)
  have inv': "dead b' + culled b' + offlaid b' \<le> originalCount b'"
    using st inv0 by (simp add: b'_def lossInvariant_def split: if_splits)
  have orig: "originalCount b' = originalCount b0"
    by (simp add: b'_def applyDeltas_def)
  have head: "\<exists>b b'. findBatch bid f s0 = Some (i, b) \<and> findBatch bid f s' = Some (i, b')
             \<and> (if dead b + orZero (req_dead r) + (culled b + orZero (req_culled r))
                      + (offlaid b + orZero (req_offlaid r)) \<le> originalCount b
                 then (\<exists>resp. res = Inr resp)
                      \<and> dead b' = dead b + orZero (req_dead r)
                      \<and> culled b' = culled b + orZero (req_culled r)
                      \<and> offlaid b' = offlaid b + orZero (req_offlaid r)
                 else res = Inl ConstraintViolation \<and> s' = s0)
             \<and> originalCount b' = originalCount b
             \<and> dead b' + culled b' + offlaid b' \<le> originalCount b'"
  proof (intro exI conjI)
    show "findBatch bid f s0 = Some (i, b0)" by (rule Cons.prems(2))
    show "findBatch bid f s' = Some (i, b')" by (rule found')
    show "originalCount b' = originalCount b0" by (rule orig)
    show "dead b' + culled b' + offlaid b' \<le> originalCount b'" by (rule inv')
    show "if dead b0 + orZero (req_dead r) + (culled b0 + orZero (req_culled r))
                      + (offlaid b0 + orZero (req_offlaid r)) \<le> originalCount b0
                 then (\<exists>resp. res = Inr resp)
                      \<and> dead b' = dead b0 + orZero (req_dead r)
                      \<and> culled b' = culled b0 + orZero (req_culled r)
                      \<and> offlaid b' = offlaid b0 + orZero (req_offlaid r)
                 else res = Inl ConstraintViolation \<and> s' = s0"
      using st by (simp add: b'_def applyDeltas_def split: if_splits)
  qed
  from Cons.prems(1) have rest: "\<forall>(r, uuid) \<in> set rest. validLossRequest r" by simp
  note tail = Cons.IH [OF rest found' inv']
  show ?case
    using head tail by (simp add: q step)
qed

lemma validLossRequest_tenDead: "validLossRequest tenDead"
  by (simp add: validLossRequest_def tenDead_def orZero_def)

lemma lossInvariant_batch1:
  "dead batch1 + culled batch1 + offlaid batch1 \<le> originalCount batch1"
  by (simp add: batch1_def)

theorem updateBirdCounts_sequence_invariant_witness:
  "user_farm alice = Some ''f1'' \<and> validLossRequest tenDead
   \<and> findBatch ''b1'' ''f1'' farm1 = Some (0, batch1)
   \<and> dead batch1 + culled batch1 + offlaid batch1 \<le> originalCount batch1
   \<and> (\<exists>b'. findBatch ''b1'' ''f1'' (snd (updateBirdCounts alice ''b1'' tenDead ''e1'' farm1))
              = Some (0, b')
         \<and> dead b' = 20 \<and> culled b' = 5 \<and> offlaid b' = 3
         \<and> dead b' + culled b' + offlaid b' \<le> originalCount b')"
proof -
  have reqs: "\<forall>(r, uuid) \<in> set [(tenDead, ''e1'')]. validLossRequest r"
    by (simp add: validLossRequest_tenDead)
  obtain res s' where step: "updateBirdCounts alice ''b1'' tenDead ''e1'' farm1 = (res, s')"
    by (cases "updateBirdCounts alice ''b1'' tenDead ''e1'' farm1")
  have "\<exists>b'. findBatch ''b1'' ''f1'' s' = Some (0, b')
         \<and> dead b' = 20 \<and> culled b' = 5 \<and> offlaid b' = 3
         \<and> dead b' + culled b' + offlaid b' \<le> originalCount b'"
    using updateBirdCounts_sequence_invariant
      [OF user_farm_alice reqs findBatch_farm1 lossInvariant_batch1]
    by (simp add: step findBatch_farm1)
       (auto simp: batch1_def tenDead_def orZero_def)
  with step show ?thesis
    by (simp add: user_farm_alice validLossRequest_tenDead findBatch_farm1 lossInvariant_batch1)
qed

subsection \<open>Audit trail\<close>

lemma updateBirdCounts_InrD:
  assumes "updateBirdCounts u bid r uuid s = (Inr resp, s')"
  shows "\<exists>f i b. user_farm u = Some f \<and> findBatch bid f s = Some (i, b)
           \<and> validLossRequest r
           \<and> dead b + orZero (req_dead r) + (culled b + orZero (req_culled r))
               + (offlaid b + orZero (req_offlaid r)) \<le> originalCount b"
  using assms
  unfolding updateBirdCounts_def
  by (auto simp: Let_def validLossRequest_def negativeCount_orZero addCount_orZero
      split: option.splits if_splits prod.splits)

lemma updateBirdCounts_InlD:
  assumes "updateBirdCounts u bid r uuid s = (Inl e, s')"
  shows "s' = s"
  using assms
  unfolding updateBirdCounts_def
  by (auto simp: Let_def findOneAndUpdateInc_def
      split: option.splits if_splits prod.splits)

lemma history_getBatchAvailability:
  "history (snd (getBatchAvailability u bid s)) = history s"
  by (simp add: getBatchAvailability_def Let_def split: option.splits prod.splits)

lemma history_createBatchAllocation:
  "history (snd (createBatchAllocation u bid hid qty uuid s)) = history s"
  by (simp add: createBatchAllocation_def Let_def split: option.splits prod.splits)

lemma history_updateBatchAllocation:
  "history (snd (updateBatchAllocation u aid qty s)) = history s"
  by (simp add: updateBatchAllocation_def Let_def split: option.splits prod.splits)

lemma history_transferBirds:
  "history (snd (transferBirds u bid fromHouseId toHouseId qty uuid s)) = history s"
  by (simp add: transferBirds_def Let_def split: option.splits prod.splits)

lemma history_listings:
  "history (snd (getBatchAllocations u bid s)) = history s"
  "history (snd (getHouseBatchAllocations u hid s)) = history s"
  "history (snd (getBirdCountHistory u bid s)) = history s"
  by (simp_all add: getBatchAllocations_def getHouseBatchAllocations_def
      getBirdCountHistory_def split: option.splits prod.splits)

lemma updateBirdCounts_success:
  assumes "updateBirdCounts u bid r uuid s = (Inr resp, s')"
  shows "\<exists>f i b b'. user_farm u = Some f \<and> findBatch bid f s = Some (i, b)
           \<and> findBatch bid f s' = Some (i, b') \<and> cr_batch resp = b'
           \<and> dead b' = dead b + orZero (req_dead r)
           \<and> culled b' = culled b + orZero (req_culled r)
           \<and> offlaid b' = offlaid b + orZero (req_offlaid r)
           \<and> originalCount b' = originalCount b
           \<and> history s' = history s @
               [\<lparr> hist_id = cr_historyId resp, hist_batchId = bid, hist_farmId = f,
                  hist_userId = user_id u,
                  hist_userName = firstName u @ '' '' @ lastName u,
                  hist_dead = orZero (req_dead r), hist_culled = orZero (req_culled r),
                  hist_offlaid = orZero (req_offlaid r),
                  hist_reason = orEmpty (req_reason r), hist_notes = orEmpty (req_notes r),
                  beforeState =
                    \<lparr> snap_dead = dead b, snap_culled = culled b, snap_offlaid = offlaid b,
                      snap_currentCount =
                        originalCount b - (dead b + culled b + offlaid b) \<rparr>,
                  afterState =
                    \<lparr> snap_dead = dead b', snap_culled = culled b', snap_offlaid = offlaid b',
                      snap_currentCount =
                        originalCount b' - (dead b' + culled b' + offlaid b') \<rparr> \<rparr>]"
proof -
  from updateBirdCounts_InrD [OF assms] obtain f i b where
    farm: "user_farm u = Some f" and found: "findBatch bid f s = Some (i, b)"
    and valid: "validLossRequest r"
    and fits: "dead b + orZero (req_dead r) + (culled b + orZero (req_culled r))
               + (offlaid b + orZero (req_offlaid r)) \<le> originalCount b"
    by blast
  from assms fits updateBirdCounts_found [OF farm found valid, of uuid]
  have resp: "resp = \<lparr> cr_batch = applyDeltas r b, cr_dead = orZero (req_dead r),
                  cr_culled = orZero (req_culled r), cr_offlaid = orZero (req_offlaid r),
                  cr_historyId = uuid \<rparr>"
    and s': "s' = s \<lparr> batches := (batches s)[i := applyDeltas r b],
                history := history s @
                  [\<lparr> hist_id = uuid, hist_batchId = bid, hist_farmId = f,
                     hist_userId = user_id u,
                     hist_userName = firstName u @ '' '' @ lastName u,
                     hist_dead = orZero (req_dead r), hist_culled = orZero (req_culled r),
                     hist_offlaid = orZero (req_offlaid r),
                     hist_reason = orEmpty (req_reason r), hist_notes = orEmpty (req_notes r),
                     beforeState = snapshotOf b,
                     afterState = snapshotOf (applyDeltas r b) \<rparr>] \<rparr>"
    by simp_all
  have found': "findBatch bid f s' = Some (i, applyDeltas r b)"
    unfolding s' by (rule findBatch_after_update [OF found]) (simp_all add: applyDeltas_def)
  show ?thesis
  proof (intro exI conjI)
    show "user_farm u = Some f" by (rule farm)
    show "findBatch bid f s = Some (i, b)" by (rule found)
    show "findBatch bid f s' = Some (i, applyDeltas r b)" by (rule found')
  qed (simp_all add: resp s' applyDeltas_def snapshotOf_def currentCount_def)
qed

text \<open>
  C9. A call of \<open>updateBirdCounts\<close> that answers 200 appends exactly one history document:
  its \<open>beforeState\<close> holds the counters and current count of the batch as loaded before
  the increment, its \<open>afterState\<close> those of the batch after it, and its recorded counts
  are the increments applied. A call that is rejected leaves the store as it was, and no
  other handler changes the history collection: no entry is rewritten or removed.
\<close>

theorem updateBirdCounts_audit_trail:
  "(\<forall>resp s'. updateBirdCounts u bid r uuid s = (Inr resp, s') \<longrightarrow>
      (\<exists>f i b b'. user_farm u = Some f \<and> findBatch bid f s = Some (i, b)
           \<and> findBatch bid f s' = Some (i, b') \<and> cr_batch resp = b'
           \<and> dead b' = dead b + orZero (req_dead r)
           \<and> culled b' = culled b + orZero (req_culled r)
           \<and> offlaid b' = offlaid b + orZero (req_offlaid r)
           \<and> originalCount b' = originalCount b
           \<and> history s' = history s @
               [\<lparr> hist_id = cr_historyId resp, hist_batchId = bid, hist_farmId = f,
                  hist_userId = user_id u,
                  hist_userName = firstName u @ '' '' @ lastName u,
                  hist_dead = orZero (req_dead r), hist_culled = orZero (req_culled r),
                  hist_offlaid = orZero (req_offlaid r),
                  hist_reason = orEmpty (req_reason r), hist_notes = orEmpty (req_notes r),
                  beforeState =
                    \<lparr> snap_dead = dead b, snap_culled = culled b, snap_offlaid = offlaid b,
                      snap_currentCount =
                        originalCount b - (dead b + culled b + offlaid b) \<rparr>,
                  afterState =
                    \<lparr> snap_dead = dead b', snap_culled = culled b', snap_offlaid = offlaid b',
                      snap_currentCount =
                        originalCount b' - (dead b' + culled b' + offlaid b') \<rparr> \<rparr>]))
   \<and> (\<forall>e s'. updateBirdCounts u bid r uuid s = (Inl e, s') \<longrightarrow> s' = s)
   \<and> history (snd (getBatchAvailability u bid s)) = history s
   \<and> history (snd (createBatchAllocation u bid hid qty uuid s)) = history s
   \<and> history (snd (updateBatchAllocation u aid qty s)) = history s
   \<and> history (snd (transferBirds u bid fromHouseId toHouseId qty uuid s)) = history s
   \<and> history (snd (getBatchAllocations u bid s)) = history s
   \<and> history (snd (getHouseBatchAllocations u hid s)) = history s
   \<and> history (snd (getBirdCountHistory u bid s)) = history s"
  using updateBirdCounts_success [of u bid r uuid s] updateBirdCounts_InlD [of u bid r uuid s]
  by (simp add: history_getBatchAvailability history_createBatchAllocation
      history_updateBatchAllocation history_transferBirds history_listings)

theorem updateBirdCounts_audit_trail_witness:
  "fst (updateBirdCounts alice ''b1'' tenDead ''e1'' farm1) =
     Inr \<lparr> cr_batch = batch1 \<lparr> dead := 20 \<rparr>, cr_dead = 10, cr_culled = 0, cr_offlaid = 0,
           cr_historyId = ''e1'' \<rparr>
   \<and> history (snd (updateBirdCounts alice ''b1'' tenDead ''e1'' farm1)) =
       [\<lparr> hist_id = ''e1'', hist_batchId = ''b1'', hist_farmId = ''f1'',
          hist_userId = ''u1'', hist_userName = ''Alice A'',
          hist_dead = 10, hist_culled = 0, hist_offlaid = 0,
          hist_reason = ''heat'', hist_notes = [],
          beforeState = \<lparr> snap_dead = 10, snap_culled = 5, snap_offlaid = 3,
                          snap_currentCount = 982 \<rparr>,
          afterState = \<lparr> snap_dead = 20, snap_culled = 5, snap_offlaid = 3,
                         snap_currentCount = 972 \<rparr> \<rparr>]"
proof -
  obtain res s' where step: "updateBirdCounts alice ''b1'' tenDead ''e1'' farm1 = (res, s')"
    by (cases "updateBirdCounts alice ''b1'' tenDead ''e1'' farm1")
  have res: "res = Inr \<lparr> cr_batch = batch1 \<lparr> dead := 20 \<rparr>, cr_dead = 10, cr_culled = 0,
                         cr_offlaid = 0, cr_historyId = ''e1'' \<rparr>"
    using step
      updateBirdCounts_found [OF user_farm_alice findBatch_farm1 validLossRequest_tenDead, of "''e1''"]
    by (simp add: batch1_def tenDead_def orZero_def applyDeltas_def)
  from step res updateBirdCounts_audit_trail [of alice "''b1''" tenDead "''e1''" farm1]
  have "\<exists>b'. cr_batch (\<lparr> cr_batch = batch1 \<lparr> dead := 20 \<rparr>, cr_dead = 10, cr_culled = 0,
                         cr_offlaid = 0, cr_historyId = ''e1'' \<rparr>) = b'
      \<and> history s' = history farm1 @
               [\<lparr> hist_id = ''e1'', hist_batchId = ''b1'', hist_farmId = ''f1'',
                  hist_userId = user_id alice,
                  hist_userName = firstName alice @ '' '' @ lastName alice,
                  hist_dead = orZero (req_dead tenDead), hist_culled = orZero (req_culled tenDead),
                  hist_offlaid = orZero (req_offlaid tenDead),
                  hist_reason = orEmpty (req_reason tenDead), hist_notes = orEmpty (req_notes tenDead),
                  beforeState =
                    \<lparr> snap_dead = dead batch1, snap_culled = culled batch1,
                      snap_offlaid = offlaid batch1,
                      snap_currentCount =
                        originalCount batch1 - (dead batch1 + culled batch1 + offlaid batch1) \<rparr>,
                  afterState =
                    \<lparr> snap_dead = dead b', snap_culled = culled b', snap_offlaid = offlaid b',
                      snap_currentCount =
                        originalCount b' - (dead b' + culled b' + offlaid b') \<rparr> \<rparr>]"
    by (simp add: user_farm_alice findBatch_farm1)
  then have "history s' =
       [\<lparr> hist_id = ''e1'', hist_batchId = ''b1'', hist_farmId = ''f1'',
          hist_userId = ''u1'', hist_userName = ''Alice A'',
          hist_dead = 10, hist_culled = 0, hist_offlaid = 0,
          hist_reason = ''heat'', hist_notes = [],
          beforeState = \<lparr> snap_dead = 10, snap_culled = 5, snap_offlaid = 3,
                          snap_currentCount = 982 \<rparr>,
          afterState = \<lparr> snap_dead = 20, snap_culled = 5, snap_offlaid = 3,
                         snap_currentCount = 972 \<rparr> \<rparr>]"
    by (simp add: farm1_def batch1_def alice_def tenDead_def orZero_def orEmpty_def)
  with step res show ?thesis by simp
qed

subsection \<open>Transfers\<close>

lemma findAllocation_SomeD:
  "findAllocation bid hid s = Some (i, a) \<Longrightarrow>
     i < length (allocations s) \<and> allocations s ! i = a \<and> batchId a = bid \<and> houseId a = hid"
  unfolding findAllocation_def by (auto dest: findOne_SomeD)

lemma sum_quantity_filter_update:
  "i < length xs \<Longrightarrow>
     sum_list (map quantity (filter P (xs[i := y]))) =
       sum_list (map quantity (filter P xs))
       - (if P (xs ! i) then quantity (xs ! i) else 0) + (if P y then quantity y else 0)"
proof (induction xs arbitrary: i)
  case Nil
  then show ?case by simp
next
  case (Cons x xs)
  then show ?case by (cases i) auto
qed

text \<open>
  C10. A transfer whose source and destination house are the same, with an allocation of
  the batch in that house that holds at least the requested quantity and a capacity that
  admits quantity plus request, answers 200; the one allocation document ends with its
  original quantity plus the requested one (the write of the destination copy replaces
  the debit), so the allocated total of the batch grows by the requested quantity.
\<close>

theorem transferBirds_same_house:
  assumes "user_farm u = Some f" and "findBatch bid f s = Some (bi, b)"
    and "findAllocation bid hid s = Some (i, a)" and "qty \<le> quantity a"
    and "findHouse hid f s = Some (hi, h)"
    and "\<not> exceedsCapacity (capacity h) (quantity a + qty)"
  shows "transferBirds u bid hid hid qty uuid s =
           (Inr \<lparr> tr_from = a \<lparr> quantity := quantity a - qty \<rparr>,
                  tr_to = a \<lparr> quantity := quantity a + qty \<rparr> \<rparr>,
            s \<lparr> allocations := (allocations s)[i := a \<lparr> quantity := quantity a + qty \<rparr>] \<rparr>)
         \<and> sum_list (map quantity (filter (\<lambda>x. batchId x = bid)
               (allocations (snd (transferBirds u bid hid hid qty uuid s))))) =
             sum_list (map quantity (filter (\<lambda>x. batchId x = bid) (allocations s))) + qty"
proof -
  have run: "transferBirds u bid hid hid qty uuid s =
           (Inr \<lparr> tr_from = a \<lparr> quantity := quantity a - qty \<rparr>,
                  tr_to = a \<lparr> quantity := quantity a + qty \<rparr> \<rparr>,
            s \<lparr> allocations := (allocations s)[i := a \<lparr> quantity := quantity a + qty \<rparr>] \<rparr>)"
    using assms unfolding transferBirds_def by (simp add: Let_def)
  from assms(3) have a: "i < length (allocations s)" "allocations s ! i = a" "batchId a = bid"
    by (simp_all add: findAllocation_SomeD)
  show ?thesis
    by (simp add: run sum_quantity_filter_update a)
qed

lemma findAllocation_farm1:
  "findAllocation ''b1'' ''hA'' farm1 =
     Some (0, \<lparr> alloc_id = ''a1'', batchId = ''b1'', houseId = ''hA'', quantity = 300 \<rparr>)"
  by (simp add: findAllocation_def farm1_def)

lemma findHouse_farm1_hA:
  "findHouse ''hA'' ''f1'' farm1 =
     Some (0, \<lparr> house_id = ''hA'', house_farmId = ''f1'', capacity = Some 600 \<rparr>)"
  by (simp add: findHouse_def farm1_def)

theorem transferBirds_same_house_witness:
  "user_farm alice = Some ''f1'' \<and> findBatch ''b1'' ''f1'' farm1 = Some (0, batch1)
   \<and> findAllocation ''b1'' ''hA'' farm1 =
       Some (0, \<lparr> alloc_id = ''a1'', batchId = ''b1'', houseId = ''hA'', quantity = 300 \<rparr>)
   \<and> findHouse ''hA'' ''f1'' farm1 =
       Some (0, \<lparr> house_id = ''hA'', house_farmId = ''f1'', capacity = Some 600 \<rparr>)
   \<and> (100::int) \<le> 300 \<and> \<not> exceedsCapacity (Some 600) (300 + 100)
   \<and> transferBirds alice ''b1'' ''hA'' ''hA'' 100 ''a2'' farm1 =
       (Inr \<lparr> tr_from = \<lparr> alloc_id = ''a1'', batchId = ''b1'', houseId = ''hA'',
                          quantity = 200 \<rparr>,
              tr_to = \<lparr> alloc_id = ''a1'', batchId = ''b1'', houseId = ''hA'',
                        quantity = 400 \<rparr> \<rparr>,
        farm1 \<lparr> allocations :=
                 [\<lparr> alloc_id = ''a1'', batchId = ''b1'', houseId = ''hA'',
                    quantity = 400 \<rparr>] \<rparr>)"
proof -
  have cap: "\<not> exceedsCapacity (capacity \<lparr> house_id = ''hA'', house_farmId = ''f1'',
                 capacity = Some 600 \<rparr>)
               (quantity \<lparr> alloc_id = ''a1'', batchId = ''b1'', houseId = ''hA'',
                 quantity = 300 \<rparr> + 100)"
    by (simp add: exceedsCapacity_def)
  have le: "100 \<le> quantity \<lparr> alloc_id = ''a1'', batchId = ''b1'', houseId = ''hA'',
                 quantity = 300 \<rparr>"
    by simp
  from transferBirds_same_house
    [OF user_farm_alice findBatch_farm1 findAllocation_farm1 le findHouse_farm1_hA cap,
     of "''a2''"]
  have "transferBirds alice ''b1'' ''hA'' ''hA'' 100 ''a2'' farm1 =
       (Inr \<lparr> tr_from = \<lparr> alloc_id = ''a1'', batchId = ''b1'', houseId = ''hA'',
                          quantity = 200 \<rparr>,
              tr_to = \<lparr> alloc_id = ''a1'', batchId = ''b1'', houseId = ''hA'',
                        quantity = 400 \<rparr> \<rparr>,
        farm1 \<lparr> allocations :=
                 [\<lparr> alloc_id = ''a1'', batchId = ''b1'', houseId = ''hA'',
                    quantity = 400 \<rparr>] \<rparr>)"
    by (simp add: farm1_def)
  then show ?thesis
    by (simp add: user_farm_alice findBatch_farm1 findAllocation_farm1 findHouse_farm1_hA
        exceedsCapacity_def)
qed

text \<open>
  C4. The scenario of the specification: 100 birds move from house A, which holds 300, to
  house B, which holds none of the batch and has capacity 200. Both writes are made
  (house A ends at 200, house B at 100), and the response is 500: no allocation
  document of house B was loaded, and the response expression reads \<^verbatim>\<open>newAllocation\<close>
  out of its scope.
\<close>

theorem transferBirds_new_destination_responds_500:
  "transferBirds alice ''b1'' ''hA'' ''hB'' 100 ''a2'' farm1 =
     (Inl ServerError,
      farm1 \<lparr> allocations :=
        [\<lparr> alloc_id = ''a1'', batchId = ''b1'', houseId = ''hA'', quantity = 200 \<rparr>,
         \<lparr> alloc_id = ''a2'', batchId = ''b1'', houseId = ''hB'', quantity = 100 \<rparr>] \<rparr>)"
  by (simp add: transferBirds_def user_farm_alice findBatch_def findAllocation_def
      findHouse_def exceedsCapacity_def farm1_def batch1_def Let_def)

text \<open>
  C3. House H has capacity 500 and is full (450 birds of batch X, 50 of batch Y).
  A transfer of 100 birds of batch Y from house G into H is accepted, since only the
  50 birds of batch Y in H are counted against the capacity; H then holds 600. An
  update of the allocation of batch Y in H to 500 is accepted, since only the new
  quantity is compared with the capacity; H then holds 950.
\<close>

theorem house_capacity_not_rechecked:
  "houseOccupancy farm2 ''hH'' = 500
   \<and> fst (transferBirds alice ''bY'' ''hG'' ''hH'' 100 ''a4'' farm2) =
       Inr \<lparr> tr_from = \<lparr> alloc_id = ''a3'', batchId = ''bY'', houseId = ''hG'',
                          quantity = 0 \<rparr>,
             tr_to = \<lparr> alloc_id = ''a2'', batchId = ''bY'', houseId = ''hH'',
                        quantity = 150 \<rparr> \<rparr>
   \<and> houseOccupancy (snd (transferBirds alice ''bY'' ''hG'' ''hH'' 100 ''a4'' farm2)) ''hH''
       = 600
   \<and> fst (updateBatchAllocation alice ''a2'' 500 farm2) =
       Inr \<lparr> alloc_id = ''a2'', batchId = ''bY'', houseId = ''hH'', quantity = 500 \<rparr>
   \<and> houseOccupancy (snd (updateBatchAllocation alice ''a2'' 500 farm2)) ''hH'' = 950"
  by (simp add: transferBirds_def updateBatchAllocation_def user_farm_alice findBatch_def
      findAllocation_def findHouse_def exceedsCapacity_def houseOccupancy_def
      sumQuantity_def farm2_def Let_def)

subsection \<open>The per-batch allocation invariant\<close>

lemma createBatchAllocation_store:
  "snd (createBatchAllocation u bid hid qty uuid s) = s
   \<or> (\<exists>f bi b. user_farm u = Some f \<and> findBatch bid f s = Some (bi, b)
         \<and> qty \<le> currentCount b - getAllocatedCount s b
         \<and> ((\<exists>i a. findAllocation bid hid s = Some (i, a)
                \<and> snd (createBatchAllocation u bid hid qty uuid s) =
                    s \<lparr> allocations := (allocations s)[i := a \<lparr> quantity := quantity a + qty \<rparr>] \<rparr>)
            \<or> snd (createBatchAllocation u bid hid qty uuid s) =
                 s \<lparr> allocations := allocations s @
                       [\<lparr> alloc_id = uuid, batchId = bid, houseId = hid, quantity = qty \<rparr>] \<rparr>))"
  unfolding createBatchAllocation_def
  by (auto simp: Let_def split: option.splits prod.splits)

lemma distinct_batch_id_eq:
  assumes "distinct (map batch_id bs)" and "b \<in> set bs" and "b' \<in> set bs"
    and "batch_id b = batch_id b'"
  shows "b = b'"
proof -
  from assms(1) have "inj_on batch_id (set bs)"
    by (simp add: distinct_map)
  with assms(2-4) show ?thesis
    by (rule_tac inj_onD)
qed

lemma findBatch_mem: "findBatch bid f s = Some (i, b) \<Longrightarrow> b \<in> set (batches s)"
  using findBatch_SomeD [of bid f s i b] by (auto simp: in_set_conv_nth)

lemma createBatchAllocation_batches:
  "batches (snd (createBatchAllocation u bid hid qty uuid s)) = batches s"
  unfolding createBatchAllocation_def
  by (simp add: Let_def split: option.splits prod.splits)

lemma createBatchAllocation_keeps_invariant:
  assumes inv: "allocatedWithinCount s" and dist: "distinct (map batch_id (batches s))"
  shows "allocatedWithinCount (snd (createBatchAllocation u bid hid qty uuid s))"
proof -
  let ?s' = "snd (createBatchAllocation u bid hid qty uuid s)"
  let ?sum = "\<lambda>k t. sum_list (map quantity (filter (\<lambda>a. batchId a = k) (allocations t)))"
  have "?s' = s \<or> (\<exists>f bi b. findBatch bid f s = Some (bi, b)
        \<and> qty \<le> currentCount b - getAllocatedCount s b
        \<and> (\<forall>k. ?sum k ?s' = ?sum k s + (if k = bid then qty else 0)))"
  proof (cases "?s' = s")
    case True
    then show ?thesis by simp
  next
    case False
    with createBatchAllocation_store [of u bid hid qty uuid s]
    obtain f bi b where found: "findBatch bid f s = Some (bi, b)"
      and fits: "qty \<le> currentCount b - getAllocatedCount s b"
      and store: "(\<exists>i a. findAllocation bid hid s = Some (i, a)
                \<and> ?s' = s \<lparr> allocations :=
                           (allocations s)[i := a \<lparr> quantity := quantity a + qty \<rparr>] \<rparr>)
            \<or> ?s' = s \<lparr> allocations := allocations s @
                       [\<lparr> alloc_id = uuid, batchId = bid, houseId = hid, quantity = qty \<rparr>] \<rparr>"
      by blast
    from store have "\<forall>k. ?sum k ?s' = ?sum k s + (if k = bid then qty else 0)"
    proof
      assume "\<exists>i a. findAllocation bid hid s = Some (i, a)
                \<and> ?s' = s \<lparr> allocations :=
                           (allocations s)[i := a \<lparr> quantity := quantity a + qty \<rparr>] \<rparr>"
      then obtain i a where fa: "findAllocation bid hid s = Some (i, a)"
        and eq: "?s' = s \<lparr> allocations :=
                           (allocations s)[i := a \<lparr> quantity := quantity a + qty \<rparr>] \<rparr>"
        by blast
      from fa have a: "i < length (allocations s)" "allocations s ! i = a" "batchId a = bid"
        by (simp_all add: findAllocation_SomeD)
      show ?thesis
        by (simp add: eq sum_quantity_filter_update a)
    next
      assume eq: "?s' = s \<lparr> allocations := allocations s @
                       [\<lparr> alloc_id = uuid, batchId = bid, houseId = hid, quantity = qty \<rparr>] \<rparr>"
      show ?thesis
        by (simp add: eq)
    qed
    with found fits show ?thesis by blast
  qed
  then consider (same) "?s' = s"
    | (grown) f bi b where "findBatch bid f s = Some (bi, b)"
        "qty \<le> currentCount b - getAllocatedCount s b"
        "\<forall>k. ?sum k ?s' = ?sum k s + (if k = bid then qty else 0)"
    by blast
  then show ?thesis
  proof cases
    case same
    with inv show ?thesis by simp
  next
    case grown
    from grown(1) have b: "b \<in> set (batches s)" "batch_id b = bid"
      by (simp_all add: findBatch_mem findBatch_SomeD)
    from grown(2) b(2) have fits: "?sum bid s + qty \<le> currentCount b"
      by (simp add: getAllocatedCount_def sumQuantity_sum_list)
    show ?thesis
      unfolding allocatedWithinCount_def
    proof
      fix b' assume "b' \<in> set (batches ?s')"
      then have mem: "b' \<in> set (batches s)" by (simp add: createBatchAllocation_batches)
      show "?sum (batch_id b') ?s' \<le> currentCount b'"
      proof (cases "batch_id b' = bid")
        case True
        with distinct_batch_id_eq [OF dist b(1) mem] b(2) have "b' = b" by simp
        with fits grown(3) b(2) show ?thesis by simp
      next
        case False
        with inv mem grown(3) show ?thesis
          by (simp add: allocatedWithinCount_def)
      qed
    qed
  qed
qed


lemma transferBirds_store:
  "snd (transferBirds u bid fromHouseId toHouseId qty uuid s) = s
   \<or> (\<exists>i a. findAllocation bid fromHouseId s = Some (i, a)
         \<and> ((\<exists>j a2. findAllocation bid toHouseId s = Some (j, a2)
                \<and> snd (transferBirds u bid fromHouseId toHouseId qty uuid s) =
                    s \<lparr> allocations :=
                          (allocations s)[i := a \<lparr> quantity := quantity a - qty \<rparr>,
                                          j := a2 \<lparr> quantity := quantity a2 + qty \<rparr>] \<rparr>)
            \<or> snd (transferBirds u bid fromHouseId toHouseId qty uuid s) =
                 s \<lparr> allocations :=
                       (allocations s)[i := a \<lparr> quantity := quantity a - qty \<rparr>] @
                       [\<lparr> alloc_id = uuid, batchId = bid, houseId = toHouseId,
                          quantity = qty \<rparr>] \<rparr>))"
  unfolding transferBirds_def
  by (auto simp: Let_def split: option.splits prod.splits)

lemma transferBirds_batches:
  "batches (snd (transferBirds u bid fromHouseId toHouseId qty uuid s)) = batches s"
  unfolding transferBirds_def
  by (simp add: Let_def split: option.splits prod.splits)

lemma transferBirds_keeps_sums:
  assumes "fromHouseId \<noteq> toHouseId"
  shows "sum_list (map quantity (filter (\<lambda>a. batchId a = k)
            (allocations (snd (transferBirds u bid fromHouseId toHouseId qty uuid s))))) =
         sum_list (map quantity (filter (\<lambda>a. batchId a = k) (allocations s)))"
proof -
  let ?s' = "snd (transferBirds u bid fromHouseId toHouseId qty uuid s)"
  show ?thesis
  proof (cases "?s' = s")
    case True
    then show ?thesis by simp
  next
    case False
    with transferBirds_store [of u bid fromHouseId toHouseId qty uuid s]
    obtain i a where fa: "findAllocation bid fromHouseId s = Some (i, a)"
      and store: "(\<exists>j a2. findAllocation bid toHouseId s = Some (j, a2)
                \<and> ?s' = s \<lparr> allocations :=
                          (allocations s)[i := a \<lparr> quantity := quantity a - qty \<rparr>,
                                          j := a2 \<lparr> quantity := quantity a2 + qty \<rparr>] \<rparr>)
            \<or> ?s' = s \<lparr> allocations :=
                       (allocations s)[i := a \<lparr> quantity := quantity a - qty \<rparr>] @
                       [\<lparr> alloc_id = uuid, batchId = bid, houseId = toHouseId,
                          quantity = qty \<rparr>] \<rparr>"
      by blast
    from fa have a: "i < length (allocations s)" "allocations s ! i = a" "batchId a = bid"
      "houseId a = fromHouseId"
      by (simp_all add: findAllocation_SomeD)
    from store show ?thesis
    proof
      assume "\<exists>j a2. findAllocation bid toHouseId s = Some (j, a2)
                \<and> ?s' = s \<lparr> allocations :=
                          (allocations s)[i := a \<lparr> quantity := quantity a - qty \<rparr>,
                                          j := a2 \<lparr> quantity := quantity a2 + qty \<rparr>] \<rparr>"
      then obtain j a2 where fb: "findAllocation bid toHouseId s = Some (j, a2)"
        and eq: "?s' = s \<lparr> allocations :=
                          (allocations s)[i := a \<lparr> quantity := quantity a - qty \<rparr>,
                                          j := a2 \<lparr> quantity := quantity a2 + qty \<rparr>] \<rparr>"
        by blast
      from fb have b: "j < length (allocations s)" "allocations s ! j = a2" "batchId a2 = bid"
        "houseId a2 = toHouseId"
        by (simp_all add: findAllocation_SomeD)
      from a(2,4) b(2,4) assms have neq: "i \<noteq> j" by auto
      show ?thesis
        by (simp add: eq sum_quantity_filter_update a b neq)
    next
      assume eq: "?s' = s \<lparr> allocations :=
                       (allocations s)[i := a \<lparr> quantity := quantity a - qty \<rparr>] @
                       [\<lparr> alloc_id = uuid, batchId = bid, houseId = toHouseId,
                          quantity = qty \<rparr>] \<rparr>"
      show ?thesis
        by (simp add: eq sum_quantity_filter_update a)
    qed
  qed
qed

lemma updateBirdCounts_allocations:
  "allocations (snd (updateBirdCounts u bid r uuid s)) = allocations s"
  unfolding updateBirdCounts_def
  by (simp add: Let_def findOneAndUpdateInc_def split: option.splits prod.splits)

text \<open>
  C2, as the code has it. In a store whose batch ids are distinct and in which every
  batch has at most its current count allocated, that still holds after
  \<open>createBatchAllocation\<close> and after \<open>transferBirds\<close> between two different houses;
  neither changes a batch. \<open>updateBirdCounts\<close> leaves the allocation documents as they
  are: it compares the loss total with the original count only.
\<close>

theorem allocation_invariant_of_allocate_and_transfer:
  assumes "allocatedWithinCount s" and "distinct (map batch_id (batches s))"
  shows "allocatedWithinCount (snd (createBatchAllocation u bid hid qty uuid s))
       \<and> batches (snd (createBatchAllocation u bid hid qty uuid s)) = batches s
       \<and> (fromHouseId \<noteq> toHouseId \<longrightarrow>
            allocatedWithinCount (snd (transferBirds u bid fromHouseId toHouseId qty uuid s)))
       \<and> batches (snd (transferBirds u bid fromHouseId toHouseId qty uuid s)) = batches s
       \<and> allocations (snd (updateBirdCounts u bid r uuid s)) = allocations s"
proof -
  have "allocatedWithinCount (snd (transferBirds u bid fromHouseId toHouseId qty uuid s))"
    if "fromHouseId \<noteq> toHouseId"
    using assms(1) transferBirds_keeps_sums [OF that, of _ u bid qty uuid s]
    by (simp add: allocatedWithinCount_def transferBirds_batches)
  then show ?thesis
    using createBatchAllocation_keeps_invariant [OF assms]
    by (simp add: createBatchAllocation_batches transferBirds_batches
        updateBirdCounts_allocations)
qed

lemma allocatedWithinCount_farm1: "allocatedWithinCount farm1"
  by (simp add: allocatedWithinCount_def farm1_def batch1_def currentCount_def)

lemma distinct_ids_farm1: "distinct (map batch_id (batches farm1))"
  by (simp add: farm1_def)

theorem allocation_invariant_of_allocate_and_transfer_witness:
  "allocatedWithinCount farm1 \<and> distinct (map batch_id (batches farm1))
   \<and> ''hA'' \<noteq> ''hB''
   \<and> allocatedWithinCount (snd (createBatchAllocation alice ''b1'' ''hB'' 100 ''a2'' farm1))
   \<and> allocatedWithinCount (snd (transferBirds alice ''b1'' ''hA'' ''hB'' 100 ''a2'' farm1))
   \<and> fst (createBatchAllocation alice ''b1'' ''hB'' 100 ''a2'' farm1) =
       Inr \<lparr> alloc_id = ''a2'', batchId = ''b1'', houseId = ''hB'', quantity = 100 \<rparr>"
proof -
  have "fst (createBatchAllocation alice ''b1'' ''hB'' 100 ''a2'' farm1) =
       Inr \<lparr> alloc_id = ''a2'', batchId = ''b1'', houseId = ''hB'', quantity = 100 \<rparr>"
    by (simp add: createBatchAllocation_def user_farm_alice findBatch_def findHouse_def
        findAllocation_def getAllocatedCount_def sumQuantity_def currentCount_def
        exceedsCapacity_def houseOccupancy_def farm1_def batch1_def Let_def)
  then show ?thesis
    using allocation_invariant_of_allocate_and_transfer
      [OF allocatedWithinCount_farm1 distinct_ids_farm1,
        where u = alice and bid = "''b1''" and hid = "''hB''" and qty = 100 and uuid = "''a2''"
          and fromHouseId = "''hA''" and toHouseId = "''hB''" and r = tenDead]
    by (simp add: allocatedWithinCount_farm1 distinct_ids_farm1)
qed

text \<open>
  C2 as stated fails at a loss: with 300 of the 982 birds of the batch allocated, a
  report of 900 dead birds is accepted (918 \<le> 1000); the current count falls to 82 and
  the 300 allocated birds stay.
\<close>

theorem loss_breaks_allocation_invariant:
  "allocatedWithinCount farm1 \<and> validLossRequest manyDead
   \<and> fst (updateBirdCounts alice ''b1'' manyDead ''e1'' farm1) =
       Inr \<lparr> cr_batch = batch1 \<lparr> dead := 910 \<rparr>, cr_dead = 900, cr_culled = 0,
             cr_offlaid = 0, cr_historyId = ''e1'' \<rparr>
   \<and> \<not> allocatedWithinCount (snd (updateBirdCounts alice ''b1'' manyDead ''e1'' farm1))"
proof -
  have valid: "validLossRequest manyDead"
    by (simp add: validLossRequest_def manyDead_def orZero_def)
  note run = updateBirdCounts_found [OF user_farm_alice findBatch_farm1 valid, of "''e1''"]
  have "fst (updateBirdCounts alice ''b1'' manyDead ''e1'' farm1) =
       Inr \<lparr> cr_batch = batch1 \<lparr> dead := 910 \<rparr>, cr_dead = 900, cr_culled = 0,
             cr_offlaid = 0, cr_historyId = ''e1'' \<rparr>"
    by (simp add: run) (simp add: batch1_def manyDead_def orZero_def applyDeltas_def)
  moreover have "\<not> allocatedWithinCount (snd (updateBirdCounts alice ''b1'' manyDead ''e1'' farm1))"
    by (simp add: run)
       (simp add: batch1_def manyDead_def orZero_def applyDeltas_def allocatedWithinCount_def
         farm1_def currentCount_def)
  ultimately show ?thesis
    by (simp add: allocatedWithinCount_farm1 valid)
qed

subsection \<open>Order of the checks of createBatchAllocation\<close>

lemma findOne_map:
  "findOne P (map h xs) =
     (case findOne (\<lambda>x. P (h x)) xs of None \<Rightarrow> None | Some (i, x) \<Rightarrow> Some (i, h x))"
  by (induction xs) (auto split: option.splits)

lemma createBatchAllocation_ignores_isArchived:
  "fst (createBatchAllocation u bid hid qty uuid
          (s \<lparr> batches := map (\<lambda>b. b \<lparr> isArchived := g b \<rparr>) (batches s) \<rparr>)) =
   fst (createBatchAllocation u bid hid qty uuid s)"
proof -
  let ?s' = "s \<lparr> batches := map (\<lambda>b. b \<lparr> isArchived := g b \<rparr>) (batches s) \<rparr>"
  have fb: "findBatch bid f ?s' =
      (case findBatch bid f s of None \<Rightarrow> None
       | Some (i, b) \<Rightarrow> Some (i, b \<lparr> isArchived := g b \<rparr>))" for f
    by (simp add: findBatch_def findOne_map)
  have fh: "findHouse hid f ?s' = findHouse hid f s" for f
    by (simp add: findHouse_def)
  have fa: "findAllocation bid hid ?s' = findAllocation bid hid s"
    by (simp add: findAllocation_def)
  have ac: "getAllocatedCount ?s' (b \<lparr> isArchived := v \<rparr>) = getAllocatedCount s b" for b v
    by (simp add: getAllocatedCount_def)
  have cc: "currentCount (b \<lparr> isArchived := v \<rparr>) = currentCount b" for b v
    by (simp add: currentCount_def)
  have ho: "houseOccupancy ?s' hid = houseOccupancy s hid"
    by (simp add: houseOccupancy_def)
  show ?thesis
    unfolding createBatchAllocation_def
    by (simp add: fb fh fa ac cc ho Let_def split: option.splits prod.splits)
qed

text \<open>
  C7, as the code has it. For a caller with a farm, \<open>createBatchAllocation\<close> checks in this
  order and leaves the store unchanged at each rejection: (1) no batch with this id in
  the caller's farm: NotFound; (2) the quantity exceeds the unallocated count of the
  batch: InsufficientUnallocated, whether or not the house exists; (3) no house with
  this id in the caller's farm: NotFound; (4) the house has a capacity other than 0 and
  either the batch's quantity in the house or the occupancy across all batches, plus the
  request, exceeds it: CapacityExceeded; otherwise the allocation of (batch, house) is
  returned with the request added. The \<open>isArchived\<close> flag of a batch has no influence on
  the response.
\<close>

theorem createBatchAllocation_validation_order:
  assumes "user_farm u = Some f"
  shows "(findBatch bid f s = None \<longrightarrow>
            createBatchAllocation u bid hid qty uuid s = (Inl NotFound, s))
   \<and> (\<forall>bi b. findBatch bid f s = Some (bi, b) \<longrightarrow>
        (originalCount b - (dead b + culled b + offlaid b)
           - sum_list (map quantity (filter (\<lambda>a. batchId a = bid) (allocations s))) < qty \<longrightarrow>
           createBatchAllocation u bid hid qty uuid s = (Inl InsufficientUnallocated, s))
      \<and> (qty \<le> originalCount b - (dead b + culled b + offlaid b)
           - sum_list (map quantity (filter (\<lambda>a. batchId a = bid) (allocations s))) \<longrightarrow>
           (findHouse hid f s = None \<longrightarrow>
              createBatchAllocation u bid hid qty uuid s = (Inl NotFound, s))
         \<and> (\<forall>hi h. findHouse hid f s = Some (hi, h) \<longrightarrow>
              (exceedsCapacity (capacity h)
                  ((case findAllocation bid hid s of None \<Rightarrow> 0 | Some (i, a) \<Rightarrow> quantity a)
                    + qty)
               \<or> exceedsCapacity (capacity h)
                  (sum_list (map quantity (filter (\<lambda>a. houseId a = hid) (allocations s)))
                    + qty) \<longrightarrow>
                 createBatchAllocation u bid hid qty uuid s = (Inl CapacityExceeded, s))
            \<and> (\<not> exceedsCapacity (capacity h)
                  ((case findAllocation bid hid s of None \<Rightarrow> 0 | Some (i, a) \<Rightarrow> quantity a)
                    + qty)
               \<and> \<not> exceedsCapacity (capacity h)
                  (sum_list (map quantity (filter (\<lambda>a. houseId a = hid) (allocations s)))
                    + qty) \<longrightarrow>
                 (\<exists>a. fst (createBatchAllocation u bid hid qty uuid s) = Inr a
                    \<and> batchId a = bid \<and> houseId a = hid
                    \<and> quantity a =
                        (case findAllocation bid hid s of
                           None \<Rightarrow> 0 | Some (i, a) \<Rightarrow> quantity a) + qty)))))
   \<and> fst (createBatchAllocation u bid hid qty uuid
             (s \<lparr> batches := map (\<lambda>b. b \<lparr> isArchived := g b \<rparr>) (batches s) \<rparr>)) =
       fst (createBatchAllocation u bid hid qty uuid s)"
proof (intro conjI allI impI)
  assume "findBatch bid f s = None"
  with assms show "createBatchAllocation u bid hid qty uuid s = (Inl NotFound, s)"
    by (simp add: createBatchAllocation_def)
next
  fix bi b
  assume found: "findBatch bid f s = Some (bi, b)"
  then have id: "batch_id b = bid" by (simp add: findBatch_SomeD)
  have un: "currentCount b - getAllocatedCount s b =
      originalCount b - (dead b + culled b + offlaid b)
        - sum_list (map quantity (filter (\<lambda>a. batchId a = bid) (allocations s)))"
    by (simp add: currentCount_def getAllocatedCount_def sumQuantity_sum_list id)
  {
    assume "originalCount b - (dead b + culled b + offlaid b)
           - sum_list (map quantity (filter (\<lambda>a. batchId a = bid) (allocations s))) < qty"
    with assms found un
    show "createBatchAllocation u bid hid qty uuid s = (Inl InsufficientUnallocated, s)"
      by (simp add: createBatchAllocation_def Let_def)
  }
  assume fits: "qty \<le> originalCount b - (dead b + culled b + offlaid b)
           - sum_list (map quantity (filter (\<lambda>a. batchId a = bid) (allocations s)))"
  {
    assume "findHouse hid f s = None"
    with assms found un fits
    show "createBatchAllocation u bid hid qty uuid s = (Inl NotFound, s)"
      by (simp add: createBatchAllocation_def Let_def)
  }
  fix hi h
  assume house: "findHouse hid f s = Some (hi, h)"
  {
    assume "exceedsCapacity (capacity h)
                  ((case findAllocation bid hid s of None \<Rightarrow> 0 | Some (i, a) \<Rightarrow> quantity a)
                    + qty)
               \<or> exceedsCapacity (capacity h)
                  (sum_list (map quantity (filter (\<lambda>a. houseId a = hid) (allocations s)))
                    + qty)"
    with assms found un fits house
    show "createBatchAllocation u bid hid qty uuid s = (Inl CapacityExceeded, s)"
      by (auto simp: createBatchAllocation_def Let_def houseOccupancy_def sumQuantity_sum_list)
  }
  assume "\<not> exceedsCapacity (capacity h)
                  ((case findAllocation bid hid s of None \<Rightarrow> 0 | Some (i, a) \<Rightarrow> quantity a)
                    + qty)
               \<and> \<not> exceedsCapacity (capacity h)
                  (sum_list (map quantity (filter (\<lambda>a. houseId a = hid) (allocations s)))
                    + qty)"
  with assms found un fits house
  show "\<exists>a. fst (createBatchAllocation u bid hid qty uuid s) = Inr a
                    \<and> batchId a = bid \<and> houseId a = hid
                    \<and> quantity a =
                        (case findAllocation bid hid s of
                           None \<Rightarrow> 0 | Some (i, a) \<Rightarrow> quantity a) + qty"
    by (auto simp: createBatchAllocation_def Let_def houseOccupancy_def sumQuantity_sum_list
        dest: findAllocation_SomeD split: option.splits)
next
  show "fst (createBatchAllocation u bid hid qty uuid
             (s \<lparr> batches := map (\<lambda>b. b \<lparr> isArchived := g b \<rparr>) (batches s) \<rparr>)) =
       fst (createBatchAllocation u bid hid qty uuid s)"
    by (rule createBatchAllocation_ignores_isArchived)
qed


lemma findHouse_farm1_missing: "findHouse ''hZ'' ''f1'' farm1 = None"
  by (simp add: findHouse_def farm1_def)

theorem createBatchAllocation_validation_order_witness:
  "user_farm alice = Some ''f1'' \<and> findBatch ''b1'' ''f1'' farm1 = Some (0, batch1)
   \<and> findHouse ''hZ'' ''f1'' farm1 = None
   \<and> createBatchAllocation alice ''b1'' ''hZ'' 5000 ''a2'' farm1
       = (Inl InsufficientUnallocated, farm1)
   \<and> createBatchAllocation alice ''b1'' ''hZ'' 50 ''a2'' farm1 = (Inl NotFound, farm1)"
proof -
  note order = createBatchAllocation_validation_order
    [OF user_farm_alice, where bid = "''b1''" and hid = "''hZ''" and s = farm1
      and uuid = "''a2''"]
  have big: "originalCount batch1 - (dead batch1 + culled batch1 + offlaid batch1)
      - sum_list (map quantity (filter (\<lambda>a. batchId a = ''b1'') (allocations farm1))) < 5000"
    by (simp add: batch1_def farm1_def)
  have small: "50 \<le> originalCount batch1 - (dead batch1 + culled batch1 + offlaid batch1)
      - sum_list (map quantity (filter (\<lambda>a. batchId a = ''b1'') (allocations farm1)))"
    by (simp add: batch1_def farm1_def)
  from order [where qty = 5000] findBatch_farm1 big
  have "createBatchAllocation alice ''b1'' ''hZ'' 5000 ''a2'' farm1
       = (Inl InsufficientUnallocated, farm1)"
    by blast
  moreover from order [where qty = 50] findBatch_farm1 small findHouse_farm1_missing
  have "createBatchAllocation alice ''b1'' ''hZ'' 50 ''a2'' farm1 = (Inl NotFound, farm1)"
    by blast
  ultimately show ?thesis
    by (simp add: user_farm_alice findBatch_farm1 findHouse_farm1_missing)
qed

text \<open>
  C7 as stated fails twice: an allocation of 10 birds of the archived batch is
  accepted, and a request for 500 birds of it (100 are unallocated) into a house that
  does not exist is answered InsufficientUnallocated, not NotFound.
\<close>

theorem createBatchAllocation_archived_and_order:
  "isArchived archivedBatch
   \<and> findBatch ''bZ'' ''f1'' farm3 = Some (0, archivedBatch)
   \<and> fst (createBatchAllocation alice ''bZ'' ''hA'' 10 ''a9'' farm3) =
       Inr \<lparr> alloc_id = ''a9'', batchId = ''bZ'', houseId = ''hA'', quantity = 10 \<rparr>
   \<and> findHouse ''hZ'' ''f1'' farm3 = None
   \<and> createBatchAllocation alice ''bZ'' ''hZ'' 500 ''a9'' farm3
       = (Inl InsufficientUnallocated, farm3)"
  by (simp add: createBatchAllocation_def user_farm_alice findBatch_def findHouse_def
      findAllocation_def getAllocatedCount_def sumQuantity_def currentCount_def
      exceedsCapacity_def houseOccupancy_def farm3_def archivedBatch_def Let_def)

subsection \<open>Documents of another farm\<close>

lemma foreign_batch_not_found:
  "\<forall>b \<in> set (batches s). batch_id b = bid \<longrightarrow> batch_farmId b \<noteq> f \<Longrightarrow>
     findBatch bid f s = None"
  by (auto simp: findBatch_def findOne_None_iff)

lemma foreign_house_not_found:
  "\<forall>h \<in> set (houses s). house_id h = hid \<longrightarrow> house_farmId h \<noteq> f \<Longrightarrow>
     findHouse hid f s = None"
  by (auto simp: findHouse_def findOne_None_iff)

lemma never_forbidden:
  "fst (getBatchAvailability u bid s) \<noteq> Inl Forbidden"
  "fst (updateBirdCounts u bid r uuid s) \<noteq> Inl Forbidden"
  "fst (createBatchAllocation u bid hid qty uuid s) \<noteq> Inl Forbidden"
  "fst (transferBirds u bid fromHouseId toHouseId qty uuid s) \<noteq> Inl Forbidden"
  "fst (getBatchAllocations u bid s) \<noteq> Inl Forbidden"
  "fst (getHouseBatchAllocations u hid s) \<noteq> Inl Forbidden"
  "fst (getBirdCountHistory u bid s) \<noteq> Inl Forbidden"
  by (simp_all add: getBatchAvailability_def updateBirdCounts_def createBatchAllocation_def
      transferBirds_def getBatchAllocations_def getHouseBatchAllocations_def
      getBirdCountHistory_def findOneAndUpdateInc_def Let_def
      split: option.splits prod.splits)

lemma foreign_batch_responses:
  assumes "user_farm u = Some f"
    and "\<forall>b \<in> set (batches s). batch_id b = bid \<longrightarrow> batch_farmId b \<noteq> f"
  shows "getBatchAvailability u bid s = (Inl NotFound, s)"
    and "validLossRequest r \<Longrightarrow> updateBirdCounts u bid r uuid s = (Inl NotFound, s)"
    and "createBatchAllocation u bid hid qty uuid s = (Inl NotFound, s)"
    and "transferBirds u bid fromHouseId toHouseId qty uuid s = (Inl NotFound, s)"
    and "getBatchAllocations u bid s = (Inl NotFound, s)"
    and "getBirdCountHistory u bid s = (Inl NotFound, s)"
    and "findOne (\<lambda>a. alloc_id a = aid) (allocations s) = Some (i, a) \<Longrightarrow> batchId a = bid
           \<Longrightarrow> updateBatchAllocation u aid qty s = (Inl Forbidden, s)"
  using assms(1) foreign_batch_not_found [OF assms(2)]
  by (auto simp: getBatchAvailability_def updateBirdCounts_def createBatchAllocation_def
      transferBirds_def getBatchAllocations_def getBirdCountHistory_def
      updateBatchAllocation_def validLossRequest_def negativeCount_orZero)

lemma foreign_house_responses:
  assumes "user_farm u = Some f"
    and "\<forall>h \<in> set (houses s). house_id h = hid \<longrightarrow> house_farmId h \<noteq> f"
  shows "getHouseBatchAllocations u hid s = (Inl NotFound, s)"
    and "createBatchAllocation u bid hid qty uuid s = (Inl NotFound, s)
         \<or> createBatchAllocation u bid hid qty uuid s = (Inl InsufficientUnallocated, s)"
    and "transferBirds u bid fromHouseId hid qty uuid s = (Inl NotFound, s)
         \<or> transferBirds u bid fromHouseId hid qty uuid s = (Inl InsufficientBirds, s)"
    and "findOne (\<lambda>a. alloc_id a = aid) (allocations s) = Some (i, a) \<Longrightarrow> houseId a = hid
           \<Longrightarrow> findBatch (batchId a) f s = Some (bi, b)
           \<Longrightarrow> updateBatchAllocation u aid qty s = (Inl NotFound, s)"
  using assms(1) foreign_house_not_found [OF assms(2)]
  by (auto simp: getHouseBatchAllocations_def createBatchAllocation_def transferBirds_def
      updateBatchAllocation_def Let_def split: option.splits)


lemma transferBirds_source_short:
  assumes "user_farm u = Some f" and "findBatch bid f s = Some (bi, b)"
    and "findAllocation bid fromHouseId s = None
         \<or> (\<exists>i a. findAllocation bid fromHouseId s = Some (i, a) \<and> quantity a < qty)"
  shows "transferBirds u bid fromHouseId toHouseId qty uuid s = (Inl InsufficientBirds, s)"
  using assms by (auto simp: transferBirds_def)

lemma transferBirds_reads_destination_house_only:
  assumes "user_farm u = Some f"
    and "batches s' = batches s" and "allocations s' = allocations s"
    and "map_option snd (findHouse toHouseId f s') = map_option snd (findHouse toHouseId f s)"
  shows "fst (transferBirds u bid fromHouseId toHouseId qty uuid s') =
           fst (transferBirds u bid fromHouseId toHouseId qty uuid s)
       \<and> allocations (snd (transferBirds u bid fromHouseId toHouseId qty uuid s')) =
           allocations (snd (transferBirds u bid fromHouseId toHouseId qty uuid s))"
proof -
  have fb: "findBatch bid f s' = findBatch bid f s"
    by (simp add: findBatch_def assms(2))
  have fa: "findAllocation bid h s' = findAllocation bid h s" for h
    by (simp add: findAllocation_def assms(3))
  show ?thesis
  proof (cases "findHouse toHouseId f s")
    case None
    with assms(4) have "findHouse toHouseId f s' = None" by simp
    with None assms(1,3) show ?thesis
      by (simp add: transferBirds_def fb fa split: option.splits prod.splits)
  next
    case (Some found)
    obtain hi h where found: "found = (hi, h)" by (cases found)
    with Some assms(4) obtain hi' where "findHouse toHouseId f s' = Some (hi', h)"
      by (cases "findHouse toHouseId f s'") auto
    with Some found assms(1,3) show ?thesis
      by (simp add: transferBirds_def fb fa Let_def split: option.splits prod.splits)
  qed
qed

lemma user_farm_mallory: "user_farm mallory = Some ''f2''"
  by (simp add: user_farm_def mallory_def)

text \<open>
  C8, as the code has it. For a batch id that no batch of the caller's farm carries,
  \<open>getBatchAvailability\<close>, \<open>createBatchAllocation\<close>, \<open>transferBirds\<close>,
  \<open>getBatchAllocations\<close>, \<open>getBirdCountHistory\<close> and, on a valid request,
  \<open>updateBirdCounts\<close> answer NotFound, while \<open>updateBatchAllocation\<close> on an allocation of
  that batch answers Forbidden (403); the store is left unchanged. For a house id that
  no house of the caller's farm carries, \<open>getHouseBatchAllocations\<close> answers NotFound,
  \<open>createBatchAllocation\<close> answers NotFound or, from its earlier check,
  InsufficientUnallocated, \<open>transferBirds\<close> with that house as destination answers
  NotFound or, from its earlier check, InsufficientBirds, and \<open>updateBatchAllocation\<close>
  answers NotFound when the batch of the allocation is the caller's; the store is left
  unchanged. The source house of \<open>transferBirds\<close> is never looked up: the source is
  addressed through the allocation of the caller's batch in it, the answer is
  InsufficientBirds when there is no such allocation or it holds less than the request,
  and the response and the allocations written depend on the house collection through
  the destination house only, so that a source house of another farm is not rejected as
  such. No handler but \<open>updateBatchAllocation\<close> ever answers Forbidden.
\<close>

theorem cross_tenant_responses:
  assumes "user_farm u = Some f"
  shows "((\<forall>b \<in> set (batches s). batch_id b = bid \<longrightarrow> batch_farmId b \<noteq> f) \<longrightarrow>
            getBatchAvailability u bid s = (Inl NotFound, s)
          \<and> (validLossRequest r \<longrightarrow> updateBirdCounts u bid r uuid s = (Inl NotFound, s))
          \<and> createBatchAllocation u bid hid qty uuid s = (Inl NotFound, s)
          \<and> transferBirds u bid fromHouseId toHouseId qty uuid s = (Inl NotFound, s)
          \<and> getBatchAllocations u bid s = (Inl NotFound, s)
          \<and> getBirdCountHistory u bid s = (Inl NotFound, s)
          \<and> (\<forall>i a. findOne (\<lambda>a. alloc_id a = aid) (allocations s) = Some (i, a)
                  \<and> batchId a = bid \<longrightarrow>
                updateBatchAllocation u aid qty s = (Inl Forbidden, s)))
   \<and> ((\<forall>h \<in> set (houses s). house_id h = hid \<longrightarrow> house_farmId h \<noteq> f) \<longrightarrow>
            getHouseBatchAllocations u hid s = (Inl NotFound, s)
          \<and> (createBatchAllocation u bid hid qty uuid s = (Inl NotFound, s)
              \<or> createBatchAllocation u bid hid qty uuid s = (Inl InsufficientUnallocated, s))
          \<and> (transferBirds u bid fromHouseId hid qty uuid s = (Inl NotFound, s)
              \<or> transferBirds u bid fromHouseId hid qty uuid s = (Inl InsufficientBirds, s))
          \<and> (\<forall>i a bi b. findOne (\<lambda>a. alloc_id a = aid) (allocations s) = Some (i, a)
                  \<and> houseId a = hid \<and> findBatch (batchId a) f s = Some (bi, b) \<longrightarrow>
                updateBatchAllocation u aid qty s = (Inl NotFound, s)))
   \<and> (\<forall>bi b. findBatch bid f s = Some (bi, b)
          \<and> (findAllocation bid fromHouseId s = None
              \<or> (\<exists>i a. findAllocation bid fromHouseId s = Some (i, a) \<and> quantity a < qty)) \<longrightarrow>
        transferBirds u bid fromHouseId toHouseId qty uuid s = (Inl InsufficientBirds, s))
   \<and> (\<forall>s'. batches s' = batches s \<and> allocations s' = allocations s
          \<and> map_option snd (findHouse toHouseId f s')
              = map_option snd (findHouse toHouseId f s) \<longrightarrow>
        fst (transferBirds u bid fromHouseId toHouseId qty uuid s') =
          fst (transferBirds u bid fromHouseId toHouseId qty uuid s)
        \<and> allocations (snd (transferBirds u bid fromHouseId toHouseId qty uuid s')) =
            allocations (snd (transferBirds u bid fromHouseId toHouseId qty uuid s)))
   \<and> fst (getBatchAvailability u bid s) \<noteq> Inl Forbidden
   \<and> fst (updateBirdCounts u bid r uuid s) \<noteq> Inl Forbidden
   \<and> fst (createBatchAllocation u bid hid qty uuid s) \<noteq> Inl Forbidden
   \<and> fst (transferBirds u bid fromHouseId toHouseId qty uuid s) \<noteq> Inl Forbidden
   \<and> fst (getBatchAllocations u bid s) \<noteq> Inl Forbidden
   \<and> fst (getHouseBatchAllocations u hid s) \<noteq> Inl Forbidden
   \<and> fst (getBirdCountHistory u bid s) \<noteq> Inl Forbidden"
proof (intro conjI impI allI)
  assume foreign: "\<forall>b \<in> set (batches s). batch_id b = bid \<longrightarrow> batch_farmId b \<noteq> f"
  note fb = foreign_batch_responses [OF assms foreign]
  show "getBatchAvailability u bid s = (Inl NotFound, s)" by (rule fb)
  show "createBatchAllocation u bid hid qty uuid s = (Inl NotFound, s)" by (rule fb)
  show "transferBirds u bid fromHouseId toHouseId qty uuid s = (Inl NotFound, s)" by (rule fb)
  show "getBatchAllocations u bid s = (Inl NotFound, s)" by (rule fb)
  show "getBirdCountHistory u bid s = (Inl NotFound, s)" by (rule fb)
  show "updateBirdCounts u bid r uuid s = (Inl NotFound, s)" if "validLossRequest r"
    using that by (rule fb)
  show "updateBatchAllocation u aid qty s = (Inl Forbidden, s)"
    if "findOne (\<lambda>a. alloc_id a = aid) (allocations s) = Some (i, a) \<and> batchId a = bid"
    for i a
    using that fb(7) by blast
next
  assume foreign: "\<forall>h \<in> set (houses s). house_id h = hid \<longrightarrow> house_farmId h \<noteq> f"
  note fh = foreign_house_responses [OF assms foreign]
  show "getHouseBatchAllocations u hid s = (Inl NotFound, s)" by (rule fh)
  show "createBatchAllocation u bid hid qty uuid s = (Inl NotFound, s)
        \<or> createBatchAllocation u bid hid qty uuid s = (Inl InsufficientUnallocated, s)"
    by (rule fh)
  show "transferBirds u bid fromHouseId hid qty uuid s = (Inl NotFound, s)
        \<or> transferBirds u bid fromHouseId hid qty uuid s = (Inl InsufficientBirds, s)"
    by (rule fh)
  show "updateBatchAllocation u aid qty s = (Inl NotFound, s)"
    if "findOne (\<lambda>a. alloc_id a = aid) (allocations s) = Some (i, a)
          \<and> houseId a = hid \<and> findBatch (batchId a) f s = Some (bi, b)"
    for i a bi b
    using that fh(4) by blast
next
  show "transferBirds u bid fromHouseId toHouseId qty uuid s = (Inl InsufficientBirds, s)"
    if "findBatch bid f s = Some (bi, b)
          \<and> (findAllocation bid fromHouseId s = None
              \<or> (\<exists>i a. findAllocation bid fromHouseId s = Some (i, a) \<and> quantity a < qty))"
    for bi b
    using that transferBirds_source_short [OF assms, of bid s bi b fromHouseId qty] by blast
next
  fix s'
  assume same: "batches s' = batches s \<and> allocations s' = allocations s
          \<and> map_option snd (findHouse toHouseId f s')
              = map_option snd (findHouse toHouseId f s)"
  then have both: "fst (transferBirds u bid fromHouseId toHouseId qty uuid s') =
          fst (transferBirds u bid fromHouseId toHouseId qty uuid s)
        \<and> allocations (snd (transferBirds u bid fromHouseId toHouseId qty uuid s')) =
            allocations (snd (transferBirds u bid fromHouseId toHouseId qty uuid s))"
    using transferBirds_reads_destination_house_only [OF assms, of s' s toHouseId] by blast
  from both show "fst (transferBirds u bid fromHouseId toHouseId qty uuid s') =
          fst (transferBirds u bid fromHouseId toHouseId qty uuid s)" by blast
  from both show "allocations (snd (transferBirds u bid fromHouseId toHouseId qty uuid s')) =
            allocations (snd (transferBirds u bid fromHouseId toHouseId qty uuid s))" by blast
qed (rule never_forbidden)+


theorem cross_tenant_responses_witness:
  "user_farm mallory = Some ''f2'' \<and> user_farm alice = Some ''f1''
   \<and> findBatch ''b1'' ''f1'' farm4 = Some (0, batch1)
   \<and> findBatch ''b1'' ''f2'' farm4 = None
   \<and> findHouse ''hC'' ''f2'' farm4 =
       Some (1, \<lparr> house_id = ''hC'', house_farmId = ''f2'', capacity = Some 50 \<rparr>)
   \<and> findHouse ''hC'' ''f1'' farm4 = None
   \<and> getBatchAvailability mallory ''b1'' farm4 = (Inl NotFound, farm4)
   \<and> updateBirdCounts mallory ''b1'' tenDead ''e1'' farm4 = (Inl NotFound, farm4)
   \<and> transferBirds mallory ''b1'' ''hA'' ''hC'' 5 ''e1'' farm4 = (Inl NotFound, farm4)
   \<and> updateBatchAllocation mallory ''a7'' 5 farm4 = (Inl Forbidden, farm4)
   \<and> getHouseBatchAllocations alice ''hC'' farm4 = (Inl NotFound, farm4)
   \<and> updateBatchAllocation alice ''a7'' 5 farm4 = (Inl NotFound, farm4)
   \<and> transferBirds alice ''b1'' ''hC'' ''hA'' 50 ''e1'' farm4 = (Inl InsufficientBirds, farm4)
   \<and> fst (transferBirds alice ''b1'' ''hC'' ''hA'' 5 ''e1''
             (farm4 \<lparr> houses :=
                [\<lparr> house_id = ''hA'', house_farmId = ''f1'', capacity = Some 600 \<rparr>] \<rparr>)) =
       fst (transferBirds alice ''b1'' ''hC'' ''hA'' 5 ''e1'' farm4)
   \<and> transferBirds alice ''b1'' ''hC'' ''hA'' 5 ''e1'' farm4 =
       (Inr \<lparr> tr_from = \<lparr> alloc_id = ''a7'', batchId = ''b1'', houseId = ''hC'',
                          quantity = 5 \<rparr>,
              tr_to = \<lparr> alloc_id = ''a1'', batchId = ''b1'', houseId = ''hA'',
                        quantity = 305 \<rparr> \<rparr>,
        farm4 \<lparr> allocations :=
          [\<lparr> alloc_id = ''a1'', batchId = ''b1'', houseId = ''hA'', quantity = 305 \<rparr>,
           \<lparr> alloc_id = ''a7'', batchId = ''b1'', houseId = ''hC'', quantity = 5 \<rparr>] \<rparr>)"
proof -
  have foreign_batch:
    "\<forall>b \<in> set (batches farm4). batch_id b = ''b1'' \<longrightarrow> batch_farmId b \<noteq> ''f2''"
    by (simp add: farm4_def batch1_def)
  have foreign_house:
    "\<forall>h \<in> set (houses farm4). house_id h = ''hC'' \<longrightarrow> house_farmId h \<noteq> ''f1''"
    by (simp add: farm4_def)
  have a7: "findOne (\<lambda>a. alloc_id a = ''a7'') (allocations farm4) =
      Some (1, \<lparr> alloc_id = ''a7'', batchId = ''b1'', houseId = ''hC'', quantity = 10 \<rparr>)"
    by (simp add: farm4_def)
  have b1: "findBatch ''b1'' ''f1'' farm4 = Some (0, batch1)"
    by (simp add: findBatch_def farm4_def batch1_def)
  have finds: "findBatch ''b1'' ''f2'' farm4 = None"
    "findHouse ''hC'' ''f2'' farm4 =
       Some (1, \<lparr> house_id = ''hC'', house_farmId = ''f2'', capacity = Some 50 \<rparr>)"
    "findHouse ''hC'' ''f1'' farm4 = None"
    by (simp_all add: findBatch_def findHouse_def farm4_def batch1_def)
  have src: "findAllocation ''b1'' ''hC'' farm4 =
      Some (1, \<lparr> alloc_id = ''a7'', batchId = ''b1'', houseId = ''hC'', quantity = 10 \<rparr>)"
    by (simp add: findAllocation_def farm4_def)
  have same: "batches (farm4 \<lparr> houses :=
                [\<lparr> house_id = ''hA'', house_farmId = ''f1'', capacity = Some 600 \<rparr>] \<rparr>)
                = batches farm4
      \<and> allocations (farm4 \<lparr> houses :=
                [\<lparr> house_id = ''hA'', house_farmId = ''f1'', capacity = Some 600 \<rparr>] \<rparr>)
                = allocations farm4
      \<and> map_option snd (findHouse ''hA'' ''f1'' (farm4 \<lparr> houses :=
                [\<lparr> house_id = ''hA'', house_farmId = ''f1'', capacity = Some 600 \<rparr>] \<rparr>))
          = map_option snd (findHouse ''hA'' ''f1'' farm4)"
    by (simp add: findHouse_def farm4_def)
  from cross_tenant_responses [OF user_farm_mallory, where s = farm4 and bid = "''b1''"
      and r = tenDead and uuid = "''e1''" and aid = "''a7''" and qty = 5
      and fromHouseId = "''hA''" and toHouseId = "''hC''"]
    foreign_batch validLossRequest_tenDead a7
  have m: "getBatchAvailability mallory ''b1'' farm4 = (Inl NotFound, farm4)"
    "updateBirdCounts mallory ''b1'' tenDead ''e1'' farm4 = (Inl NotFound, farm4)"
    "transferBirds mallory ''b1'' ''hA'' ''hC'' 5 ''e1'' farm4 = (Inl NotFound, farm4)"
    "updateBatchAllocation mallory ''a7'' 5 farm4 = (Inl Forbidden, farm4)"
    by simp_all
  from cross_tenant_responses [OF user_farm_alice, where s = farm4 and hid = "''hC''"
      and aid = "''a7''" and qty = 5]
    foreign_house a7 b1
  have a: "getHouseBatchAllocations alice ''hC'' farm4 = (Inl NotFound, farm4)"
    "updateBatchAllocation alice ''a7'' 5 farm4 = (Inl NotFound, farm4)"
    by simp_all
  from cross_tenant_responses [OF user_farm_alice, where s = farm4 and bid = "''b1''"
      and fromHouseId = "''hC''" and toHouseId = "''hA''" and qty = 50 and uuid = "''e1''"]
    b1 src
  have short: "transferBirds alice ''b1'' ''hC'' ''hA'' 50 ''e1'' farm4
      = (Inl InsufficientBirds, farm4)"
    by simp
  from cross_tenant_responses [OF user_farm_alice, where s = farm4 and bid = "''b1''"
      and fromHouseId = "''hC''" and toHouseId = "''hA''" and qty = 5 and uuid = "''e1''"]
    same
  have indep: "fst (transferBirds alice ''b1'' ''hC'' ''hA'' 5 ''e1''
             (farm4 \<lparr> houses :=
                [\<lparr> house_id = ''hA'', house_farmId = ''f1'', capacity = Some 600 \<rparr>] \<rparr>)) =
       fst (transferBirds alice ''b1'' ''hC'' ''hA'' 5 ''e1'' farm4)"
    by blast
  have accepted: "transferBirds alice ''b1'' ''hC'' ''hA'' 5 ''e1'' farm4 =
       (Inr \<lparr> tr_from = \<lparr> alloc_id = ''a7'', batchId = ''b1'', houseId = ''hC'',
                          quantity = 5 \<rparr>,
              tr_to = \<lparr> alloc_id = ''a1'', batchId = ''b1'', houseId = ''hA'',
                        quantity = 305 \<rparr> \<rparr>,
        farm4 \<lparr> allocations :=
          [\<lparr> alloc_id = ''a1'', batchId = ''b1'', houseId = ''hA'', quantity = 305 \<rparr>,
           \<lparr> alloc_id = ''a7'', batchId = ''b1'', houseId = ''hC'', quantity = 5 \<rparr>] \<rparr>)"
    by (simp add: transferBirds_def user_farm_alice findBatch_def findAllocation_def
        findHouse_def exceedsCapacity_def farm4_def batch1_def Let_def)
  from m a short indep accepted show ?thesis
    by (simp add: user_farm_mallory user_farm_alice b1 finds)
qed

text \<open>
  C8 as stated fails at \<open>updateBatchAllocation\<close>: a user of farm \<open>f2\<close> who names an
  allocation of a batch of farm \<open>f1\<close> is answered 403, not 404.
\<close>

theorem updateBatchAllocation_forbidden:
  "user_farm mallory = Some ''f2'' \<and> findBatch ''b1'' ''f1'' farm1 = Some (0, batch1)
   \<and> updateBatchAllocation mallory ''a1'' 5 farm1 = (Inl Forbidden, farm1)
   \<and> status Forbidden = 403"
  by (simp add: updateBatchAllocation_def user_farm_mallory findBatch_def farm1_def batch1_def)

subsection \<open>Interleaved loss requests\<close>

lemma runSchedule_alone:
  "runSchedule bid [0, 0, 0]
     ([\<lparr> rq_user = u, rq_body = r, rq_uuid = uuid, rq_phase = Start \<rparr>], s) =
   ([\<lparr> rq_user = u, rq_body = r, rq_uuid = uuid,
        rq_phase = Done (fst (updateBirdCounts u bid r uuid s)) \<rparr>],
    snd (updateBirdCounts u bid r uuid s))"
proof (cases "user_farm u")
  case None
  then show ?thesis
    by (simp add: stepAt_def stepRequest_def lossCheck_def updateBirdCounts_def)
next
  case farm: (Some f)
  show ?thesis
  proof (cases "findBatch bid f s")
    case None
    with farm show ?thesis
      by (simp add: stepAt_def stepRequest_def lossCheck_def updateBirdCounts_def)
  next
    case (Some found)
    obtain i b where "found = (i, b)" by (cases found)
    with farm Some show ?thesis
      by (simp add: stepAt_def stepRequest_def lossCheck_def lossIncrement_def lossAudit_def
          updateBirdCounts_def findOneAndUpdateInc_def Let_def)
  qed
qed

lemma length_filter_update:
  "k < length xs \<Longrightarrow>
     length (filter P (xs[k := y])) + (if P (xs ! k) then 1 else 0) =
     length (filter P xs) + (if P y then 1 else 0)"
proof (induction xs arbitrary: k)
  case Nil
  then show ?case by simp
next
  case (Cons x xs)
  then show ?case by (cases k) auto
qed

lemma stepAt_length: "length (fst (stepAt bid k c)) = length (fst c)"
  by (cases c) (simp add: stepAt_def split: prod.splits)

lemma stepRequest_fields:
  "stepRequest bid q s = (q', s') \<Longrightarrow>
     rq_user q' = rq_user q \<and> rq_body q' = rq_body q \<and> rq_uuid q' = rq_uuid q"
  by (auto simp: stepRequest_def split: phase.splits prod.splits)

lemma lossCheck_oneDead:
  assumes "oneDeadCaller f q" and "findBatch bid f s = Some (i, b)"
    and "culled b = 0" and "offlaid b = 0" and "dead b + 1 \<le> originalCount b"
  shows "lossCheck (rq_user q) bid (rq_body q) s = Checked f b"
  using assms
  by (simp add: lossCheck_def oneDeadCaller_def negativeCount_def addCount_def Let_def)

lemma lossIncrement_oneDead:
  assumes "oneDeadCaller f q" and "findBatch bid f s = Some (i, b)"
  shows "lossIncrement bid (rq_body q) f b0 s =
           (Updated f b0 (b \<lparr> dead := dead b + 1 \<rparr>),
            s \<lparr> batches := (batches s)[i := b \<lparr> dead := dead b + 1 \<rparr>] \<rparr>)"
  using assms
  by (simp add: lossIncrement_def findOneAndUpdateInc_def incCounts_def oneDeadCaller_def
      addCount_def Let_def)

lemma findBatch_after_inc:
  assumes "findBatch bid f s = Some (i, b)"
  shows "findBatch bid f (s \<lparr> batches := (batches s)[i := b \<lparr> dead := d \<rparr>] \<rparr>) =
           Some (i, b \<lparr> dead := d \<rparr>)"
proof -
  from assms have "batch_id b = bid \<and> batch_farmId b = f"
    by (simp add: findBatch_SomeD)
  with assms show ?thesis
    unfolding findBatch_def by (simp add: findOne_update_same)
qed

lemma raceInvariant_stepAt:
  assumes inv: "raceInvariant bid f i orig c"
  shows "raceInvariant bid f i orig (stepAt bid k c)"
proof -
  obtain qs s where c: "c = (qs, s)" by (cases c)
  let ?n = "\<lambda>xs. length (filter (\<lambda>q. incrementApplied (rq_phase q)) xs)"
  from inv c obtain b where len: "int (length qs) \<le> orig"
    and callers: "\<forall>q \<in> set qs. oneDeadCaller f q
                \<and> (\<forall>e. rq_phase q \<noteq> Done (Inl e))
                \<and> (\<forall>f' b. rq_phase q = Checked f' b \<longrightarrow> f' = f)"
    and found: "findBatch bid f s = Some (i, b)" and orig: "originalCount b = orig"
    and zero: "culled b = 0" "offlaid b = 0"
    and dead: "dead b = int (?n qs)"
    by (auto simp: raceInvariant_def)
  show ?thesis
  proof (cases "k < length qs")
    case False
    with inv c show ?thesis by (simp add: stepAt_def)
  next
    case True
    define q where "q = qs ! k"
    from True have mem: "q \<in> set qs" by (simp add: q_def)
    with callers have caller: "oneDeadCaller f q"
      and ok: "\<forall>e. rq_phase q \<noteq> Done (Inl e)"
      and farm: "\<forall>f' b. rq_phase q = Checked f' b \<longrightarrow> f' = f"
      by blast+
    have result: "raceInvariant bid f i orig (qs[k := q'], s')"
      if fields: "oneDeadCaller f q'"
        and ok': "\<forall>e. rq_phase q' \<noteq> Done (Inl e)"
        and farm': "\<forall>f' b. rq_phase q' = Checked f' b \<longrightarrow> f' = f"
        and store: "\<exists>b'. findBatch bid f s' = Some (i, b') \<and> originalCount b' = orig
                \<and> culled b' = 0 \<and> offlaid b' = 0
                \<and> dead b' = int (?n (qs[k := q']))"
      for q' s'
    proof -
      have "\<forall>x \<in> set (qs[k := q']). oneDeadCaller f x
                \<and> (\<forall>e. rq_phase x \<noteq> Done (Inl e))
                \<and> (\<forall>f' b. rq_phase x = Checked f' b \<longrightarrow> f' = f)"
      proof
        fix x assume "x \<in> set (qs[k := q'])"
        then have "x = q' \<or> x \<in> set qs"
          using set_update_subset_insert [of qs k q'] by auto
        with callers fields ok' farm' show "oneDeadCaller f x
                \<and> (\<forall>e. rq_phase x \<noteq> Done (Inl e))
                \<and> (\<forall>f' b. rq_phase x = Checked f' b \<longrightarrow> f' = f)"
          by blast
      qed
      with len store show ?thesis
        by (simp add: raceInvariant_def)
    qed
    note count = length_filter_update [OF True, of "\<lambda>q. incrementApplied (rq_phase q)"]
    show ?thesis
    proof (cases "rq_phase q")
      case Start
      have "?n qs < length qs"
        by (rule length_filter_less [OF mem]) (simp add: Start)
      with dead len orig have fits: "dead b + 1 \<le> originalCount b" by simp
      have check: "lossCheck (rq_user q) bid (rq_body q) s = Checked f b"
        by (rule lossCheck_oneDead [OF caller found zero fits])
      have step: "stepAt bid k c = (qs[k := q \<lparr> rq_phase := Checked f b \<rparr>], s)"
        using True Start check by (simp add: c stepAt_def stepRequest_def q_def)
      have n: "?n (qs[k := q \<lparr> rq_phase := Checked f b \<rparr>]) = ?n qs"
        using count [of "q \<lparr> rq_phase := Checked f b \<rparr>"] Start by (simp add: q_def)
      show ?thesis
        unfolding step
        using caller found orig zero dead n
        by (intro result) (simp_all add: oneDeadCaller_def)
    next
      case (Checked f' b0)
      with farm have f': "f' = f" by simp
      let ?b = "b \<lparr> dead := dead b + 1 \<rparr>"
      let ?q = "q \<lparr> rq_phase := Updated f b0 ?b \<rparr>"
      let ?s = "s \<lparr> batches := (batches s)[i := ?b] \<rparr>"
      have step: "stepAt bid k c = (qs[k := ?q], ?s)"
        using True Checked f' lossIncrement_oneDead [OF caller found, of b0]
        by (simp add: c stepAt_def stepRequest_def q_def)
      have n: "?n (qs[k := ?q]) = ?n qs + 1"
        using count [of ?q] Checked by (simp add: q_def)
      have found': "findBatch bid f ?s = Some (i, ?b)"
        by (rule findBatch_after_inc [OF found])
      show ?thesis
        unfolding step
        using caller found' orig zero dead n
        by (intro result) (simp_all add: oneDeadCaller_def)
    next
      case (Updated f' b0 ub)
      obtain p s' where audit:
        "lossAudit (rq_user q) (rq_body q) (rq_uuid q) f' b0 ub s = (p, s')"
        by (cases "lossAudit (rq_user q) (rq_body q) (rq_uuid q) f' b0 ub s")
      then have p: "\<exists>resp. p = Done (Inr resp)" and s': "batches s' = batches s"
        by (auto simp: lossAudit_def Let_def)
      let ?q = "q \<lparr> rq_phase := p \<rparr>"
      have step: "stepAt bid k c = (qs[k := ?q], s')"
        using True Updated audit by (simp add: c stepAt_def stepRequest_def q_def)
      have n: "?n (qs[k := ?q]) = ?n qs"
        using count [of ?q] Updated p by (auto simp: q_def)
      have found': "findBatch bid f s' = Some (i, b)"
        using found s' by (simp add: findBatch_def)
      show ?thesis
        unfolding step
        using caller found' orig zero dead n p
        by (intro result) (auto simp: oneDeadCaller_def)
    next
      case (Done res)
      have "stepAt bid k c = (qs[k := q], s)"
        using True Done by (simp add: c stepAt_def stepRequest_def q_def)
      then have "stepAt bid k c = c"
        by (simp add: c q_def)
      with inv show ?thesis by simp
    qed
  qed
qed

lemma raceInvariant_runSchedule:
  "raceInvariant bid f i orig c \<Longrightarrow> raceInvariant bid f i orig (runSchedule bid sched c)"
  by (induction sched arbitrary: c) (simp_all add: raceInvariant_stepAt)


lemma runSchedule_length: "length (fst (runSchedule bid sched c)) = length (fst c)"
  by (induction sched arbitrary: c) (simp_all add: stepAt_length)

lemma lossCheck_not_Start: "1 \<le> segmentsDone (lossCheck u bid r s)"
  by (simp add: lossCheck_def Let_def split: option.splits prod.splits)

lemma stepRequest_segments:
  "min 3 (Suc (segmentsDone (rq_phase q)))
     \<le> segmentsDone (rq_phase (fst (stepRequest bid q s)))"
proof (cases "rq_phase q")
  case Start
  with lossCheck_not_Start [of "rq_user q" bid "rq_body q" s] show ?thesis
    by (simp add: stepRequest_def)
next
  case (Checked f b)
  then show ?thesis
    by (simp add: stepRequest_def lossIncrement_def split: prod.splits option.splits)
next
  case (Updated f b ub)
  then show ?thesis
    by (simp add: stepRequest_def lossAudit_def Let_def)
next
  case (Done res)
  then show ?thesis
    by (simp add: stepRequest_def)
qed

lemma stepAt_segments:
  assumes "j < length (fst c)"
  shows "min 3 (segmentsDone (rq_phase (fst c ! j)) + (if k = j then 1 else 0))
           \<le> segmentsDone (rq_phase (fst (stepAt bid k c) ! j))"
proof -
  obtain qs s where c: "c = (qs, s)" by (cases c)
  show ?thesis
  proof (cases "k = j")
    case True
    obtain q' s' where step: "stepRequest bid (qs ! j) s = (q', s')"
      by (cases "stepRequest bid (qs ! j) s")
    with True assms stepRequest_segments [of "qs ! j" bid s] show ?thesis
      by (simp add: c stepAt_def)
  next
    case False
    with assms show ?thesis
      by (simp add: c stepAt_def split: prod.splits)
  qed
qed

lemma runSchedule_segments:
  "j < length (fst c) \<Longrightarrow>
     min 3 (segmentsDone (rq_phase (fst c ! j)) + count_list sched j)
       \<le> segmentsDone (rq_phase (fst (runSchedule bid sched c) ! j))"
proof (induction sched arbitrary: c)
  case Nil
  then show ?case by simp
next
  case (Cons k ks)
  from Cons.prems have j: "j < length (fst (stepAt bid k c))"
    by (simp add: stepAt_length)
  from stepAt_segments [OF Cons.prems, of k bid] Cons.IH [OF j]
  show ?case by (auto split: if_splits)
qed

lemma segmentsDone_3: "3 \<le> segmentsDone p \<longleftrightarrow> (\<exists>res. p = Done res)"
  by (cases p) simp_all

text \<open>
  C5. N requests \<^verbatim>\<open>{dead: 1}\<close> by callers of the farm are in flight at once against a batch
  with \<open>originalCount = 100\<close> and no losses, N \<le> 100. Whatever the order in which their
  segments run (the read with the test, the \<^verbatim>\<open>$inc\<close>, the history write), the stored \<open>dead\<close>
  counter is at every moment the number of requests whose \<^verbatim>\<open>$inc\<close> has run; once every
  request has answered, each has answered 200 and \<open>dead = N\<close>. Every schedule that lets
  each request advance three times ends with every request answered.
\<close>

theorem concurrent_loss_requests_all_counted:
  assumes "findBatch bid f s0 = Some (i, b0)" and "originalCount b0 = 100"
    and "dead b0 = 0" and "culled b0 = 0" and "offlaid b0 = 0"
    and "length qs0 \<le> 100"
    and "\<forall>q \<in> set qs0. user_farm (rq_user q) = Some f \<and> req_dead (rq_body q) = Some 1
           \<and> req_culled (rq_body q) = None \<and> req_offlaid (rq_body q) = None
           \<and> rq_phase q = Start"
  shows "length (fst (runSchedule bid sched (qs0, s0))) = length qs0
     \<and> (\<exists>b. findBatch bid f (snd (runSchedule bid sched (qs0, s0))) = Some (i, b)
           \<and> dead b = int (length (filter (\<lambda>q. incrementApplied (rq_phase q))
                                (fst (runSchedule bid sched (qs0, s0))))))
     \<and> ((\<forall>q \<in> set (fst (runSchedule bid sched (qs0, s0))). \<exists>res. rq_phase q = Done res) \<longrightarrow>
           (\<forall>q \<in> set (fst (runSchedule bid sched (qs0, s0))).
               \<exists>resp. rq_phase q = Done (Inr resp))
         \<and> (\<exists>b. findBatch bid f (snd (runSchedule bid sched (qs0, s0))) = Some (i, b)
               \<and> dead b = int (length qs0)))
     \<and> ((\<forall>k < length qs0. 3 \<le> count_list sched k) \<longrightarrow>
           (\<forall>q \<in> set (fst (runSchedule bid sched (qs0, s0))). \<exists>res. rq_phase q = Done res))"
proof -
  obtain qs s where run: "runSchedule bid sched (qs0, s0) = (qs, s)"
    by (cases "runSchedule bid sched (qs0, s0)")
  let ?n = "\<lambda>xs. length (filter (\<lambda>q. incrementApplied (rq_phase q)) xs)"
  from assms(7) have "?n qs0 = 0" by (induction qs0) auto
  with assms have "raceInvariant bid f i 100 (qs0, s0)"
    by (auto simp: raceInvariant_def oneDeadCaller_def)
  then have "raceInvariant bid f i 100 (qs, s)"
    using raceInvariant_runSchedule [of bid f i 100 "(qs0, s0)" sched] by (simp add: run)
  then obtain b where ok: "\<forall>q \<in> set qs. \<forall>e. rq_phase q \<noteq> Done (Inl e)"
    and found: "findBatch bid f s = Some (i, b)" and dead: "dead b = int (?n qs)"
    by (auto simp: raceInvariant_def)
  have len: "length qs = length qs0"
    using runSchedule_length [of bid sched "(qs0, s0)"] by (simp add: run)
  have finished: "(\<forall>q \<in> set qs. \<exists>resp. rq_phase q = Done (Inr resp))
         \<and> (\<exists>b. findBatch bid f s = Some (i, b) \<and> dead b = int (length qs0))"
    if answered: "\<forall>q \<in> set qs. \<exists>res. rq_phase q = Done res"
  proof -
    have all: "\<forall>q \<in> set qs. \<exists>resp. rq_phase q = Done (Inr resp)"
    proof
      fix q assume q: "q \<in> set qs"
      with answered obtain res where "rq_phase q = Done res" by blast
      with ok q show "\<exists>resp. rq_phase q = Done (Inr resp)"
        by (cases res) auto
    qed
    then have "\<forall>q \<in> set qs. incrementApplied (rq_phase q)" by auto
    then have "?n qs = length qs" by simp
    with found dead len all show ?thesis by simp
  qed
  have complete: "\<forall>q \<in> set qs. \<exists>res. rq_phase q = Done res"
    if fair: "\<forall>k < length qs0. 3 \<le> count_list sched k"
  proof
    fix q assume "q \<in> set qs"
    then obtain j where j: "j < length qs" and q: "q = qs ! j"
      by (auto simp: in_set_conv_nth)
    from j len have j0: "j < length (fst (qs0, s0))" by simp
    from fair j len have "3 \<le> count_list sched j" by simp
    with runSchedule_segments [OF j0, of sched bid]
    have "3 \<le> segmentsDone (rq_phase (qs ! j))"
      by (simp add: run min_def split: if_splits)
    with q show "\<exists>res. rq_phase q = Done res"
      by (simp add: segmentsDone_3)
  qed
  from len found dead finished complete show ?thesis
    by (simp add: run)
qed

lemma findBatch_farm5: "findBatch ''b5'' ''f1'' farm5 = Some (0, hundred)"
  by (simp add: findBatch_def farm5_def hundred_def)

theorem concurrent_loss_requests_all_counted_witness:
  "findBatch ''b5'' ''f1'' farm5 = Some (0, hundred) \<and> originalCount hundred = 100
   \<and> dead hundred = 0 \<and> culled hundred = 0 \<and> offlaid hundred = 0
   \<and> length [firstCall, secondCall] \<le> 100
   \<and> 3 \<le> count_list [0, 1, 0, 1, 0, 1] (0::nat) \<and> 3 \<le> count_list [0, 1, 0, 1, 0, 1] (1::nat)
   \<and> (\<exists>b. findBatch ''b5'' ''f1''
             (snd (runSchedule ''b5'' [0, 1, 0, 1, 0, 1] ([firstCall, secondCall], farm5)))
           = Some (0, b) \<and> dead b = 2)"
proof -
  have callers: "\<forall>q \<in> set [firstCall, secondCall].
      user_farm (rq_user q) = Some ''f1'' \<and> req_dead (rq_body q) = Some 1
      \<and> req_culled (rq_body q) = None \<and> req_offlaid (rq_body q) = None
      \<and> rq_phase q = Start"
    by (simp add: firstCall_def secondCall_def oneDead_def user_farm_alice)
  have h: "originalCount hundred = 100" "dead hundred = 0" "culled hundred = 0"
    "offlaid hundred = 0"
    by (simp_all add: hundred_def)
  have len: "length [firstCall, secondCall] \<le> 100" by simp
  have fair: "\<forall>k < length [firstCall, secondCall]. 3 \<le> count_list [0, 1, 0, 1, 0, 1] k"
    by (simp add: less_Suc_eq)
  from concurrent_loss_requests_all_counted [OF findBatch_farm5 h len callers,
      of "[0, 1, 0, 1, 0, 1]"] fair
  have "\<exists>b. findBatch ''b5'' ''f1''
             (snd (runSchedule ''b5'' [0, 1, 0, 1, 0, 1] ([firstCall, secondCall], farm5)))
           = Some (0, b) \<and> dead b = 2"
    by simp
  then show ?thesis
    by (simp add: findBatch_farm5 h)
qed

end
